theory Spec2Isabelle
  imports Main "HOL-Library.Word"
begin

unbundle bit_operations_syntax

section \<open>Data model\<close>

text \<open>
  Addresses are Go byte slices: \<open>net.HardwareAddr\<close> and \<open>net.IP\<close> are both \<open>[]byte\<close>.
  A nil slice and an empty slice are the empty list; neither \<open>bytes.Equal\<close> nor
  \<open>IP.Equal\<close> tells them apart.
\<close>

type_synonym byte = "8 word"
type_synonym HardwareAddr = "byte list"
type_synonym IP = "byte list"

text \<open>\<open>time.Time\<close>: a reading of the clock, as a number.\<close>

type_synonym time = nat

text \<open>The identity of a Go channel of \<open>Entry\<close> values.\<close>

type_synonym chan = nat

text \<open>
  Modelled from the spec: the declaration of the \<open>State\<close> field's type and of its constants
  \<open>StateNormal\<close>, \<open>StateHunt\<close> and \<open>StateVirtualHost\<close> is not in \<open>handler.go\<close>; the
  specification (Data model, Entry) lists exactly these three states.
\<close>

datatype arpState = StateNormal | StateHunt | StateVirtualHost

text \<open>
  Modelled from the spec: the declaration of \<open>Entry\<close> is not in \<open>handler.go\<close>. The fields
  are the ones \<open>handler.go\<close> reads and writes, which are the five of the specification.
\<close>

record Entry =
  MAC :: HardwareAddr
  IP :: IP
  State :: arpState
  Online :: bool
  LastUpdate :: time

text \<open>\<open>net.IPNet\<close>: a network address and its mask.\<close>

record IPNet =
  NetIP :: IP
  Mask :: "byte list"

record configuration =
  NIC :: string
  HostMAC :: HardwareAddr
  HostIP :: IP
  RouterIP :: IP
  RouterMAC :: HardwareAddr
  HomeLAN :: IPNet

text \<open>
  The \<open>Handler\<close>. The raw socket is a handle (a number); \<open>notification\<close> is a channel
  that may be nil. The mutex is not modelled: one frame is processed as one atomic
  step. The goroutine pool is seen only through the \<open>Stopping\<close> answers the ingest loop
  reads from it.
\<close>

record Handler =
  client :: nat
  table :: "Entry list"
  notification :: "chan option"
  config :: configuration

text \<open>
  \<open>marp.Packet\<close> of the ARP library: the operation is a 16-bit code, 1 for a request and
  2 for a reply.
\<close>

record Packet =
  Operation :: "16 word"
  SenderHardwareAddr :: HardwareAddr
  SenderIP :: IP
  TargetHardwareAddr :: HardwareAddr
  TargetIP :: IP

definition OperationRequest :: "16 word" where
  "OperationRequest = 1"

definition OperationReply :: "16 word" where
  "OperationReply = 2"

section \<open>The standard library's address functions\<close>

text \<open>\<open>bytes.Equal\<close>: same length and same bytes.\<close>

definition bytes_Equal :: "byte list \<Rightarrow> byte list \<Rightarrow> bool" where
  "bytes_Equal a b = (a = b)"

text \<open>The 12-byte prefix of an IPv4 address written in 16 bytes.\<close>

definition v4InV6Prefix :: "byte list" where
  "v4InV6Prefix = [0, 0, 0, 0, 0, 0, 0, 0, 0, 0, 0xff, 0xff]"

text \<open>\<open>net.IPv4zero\<close> is \<open>net.IPv4(0, 0, 0, 0)\<close>, the 16-byte form of 0.0.0.0.\<close>

definition IPv4zero :: IP where
  "IPv4zero = v4InV6Prefix @ [0, 0, 0, 0]"

text \<open>
  \<open>IP.Equal\<close>: equal byte slices, or a 4-byte address and its 16-byte form.
\<close>

definition IP_Equal :: "IP \<Rightarrow> IP \<Rightarrow> bool" where
  "IP_Equal ip x =
     (if length ip = length x then ip = x
      else if length ip = 4 \<and> length x = 16 then take 12 x = v4InV6Prefix \<and> ip = drop 12 x
      else if length ip = 16 \<and> length x = 4 then take 12 ip = v4InV6Prefix \<and> drop 12 ip = x
      else False)"

text \<open>\<open>IP.To4\<close>: the 4-byte form of an IPv4 address, nil (\<open>None\<close>) for anything else.\<close>

definition To4 :: "IP \<Rightarrow> IP option" where
  "To4 ip =
     (if length ip = 4 then Some ip
      else if length ip = 16 \<and> take 12 ip = v4InV6Prefix then Some (drop 12 ip)
      else None)"

text \<open>\<open>IP.IsLinkLocalUnicast\<close>: 169.254.0.0/16, or fe80::/10 for a 16-byte address.\<close>

definition IsLinkLocalUnicast :: "IP \<Rightarrow> bool" where
  "IsLinkLocalUnicast ip =
     (case To4 ip of
        Some ip4 \<Rightarrow> ip4 ! 0 = 169 \<and> ip4 ! 1 = 254
      | None \<Rightarrow> length ip = 16 \<and> ip ! 0 = 0xfe \<and> (ip ! 1) AND 0xc0 = 0x80)"

section \<open>Helpers of the repository that are not in handler.go\<close>

text \<open>
  Modelled from the spec: \<open>dupIP\<close> is not in \<open>handler.go\<close>. The specification says that
  the update sets the Entry's IP to the observed IP; the copy has the bytes of its
  argument.
\<close>

definition dupIP :: "IP \<Rightarrow> IP" where
  "dupIP srcIP = srcIP"

section \<open>The state action handlers\<close>

text \<open>
  \<open>actionUpdateClient\<close> writes through the pointer \<open>client\<close>; the model returns the Entry
  as it is after the call, and the int.
\<close>

definition actionUpdateClient ::
  "Handler \<Rightarrow> Entry \<Rightarrow> HardwareAddr \<Rightarrow> IP \<Rightarrow> Entry \<times> int" where
  "actionUpdateClient c client' senderMAC senderIP =
     (if (IP_Equal (IP client') senderIP \<and> Online client') \<or>
         IP_Equal senderIP IPv4zero \<or>
         bytes_Equal senderMAC (RouterMAC (config c)) \<or>
         IP_Equal senderIP (HostIP (config c))
      then (client', 0)
      else (client'\<lparr>IP := dupIP senderIP, State := StateNormal\<rparr>, 1))"


text \<open>
  The error value \<open>actionRequestInHuntState\<close> builds with \<open>fmt.Errorf\<close>: the Entry's MAC
  and the IP it had on entry.
\<close>

datatype error = ErrUpdatingClient HardwareAddr IP

text \<open>
  \<open>actionRequestInHuntState\<close> returns \<open>(n, err)\<close>; the model adds the Entry as the call
  leaves it.
\<close>

definition actionRequestInHuntState ::
  "Handler \<Rightarrow> Entry \<Rightarrow> IP \<Rightarrow> IP \<Rightarrow> Entry \<times> int \<times> error option" where
  "actionRequestInHuntState c client' senderIP targetIP =
     (let ip = IP client' in
      if \<not> IP_Equal senderIP IPv4zero \<and> \<not> IP_Equal senderIP targetIP
      then (client', 0, None)
      else if \<not> IP_Equal ip targetIP
      then (case actionUpdateClient c client' (MAC client') targetIP of
              (client'', n) \<Rightarrow>
                if n \<noteq> 1 then (client'', 0, Some (ErrUpdatingClient (MAC client'') ip))
                else (client'', n, None))
      else (client', 0, None))"

section \<open>The Host Table\<close>

text \<open>A pointer to an Entry of the table is the Entry's index in the table.\<close>

fun findIndex :: "('a \<Rightarrow> bool) \<Rightarrow> 'a list \<Rightarrow> nat option" where
  "findIndex P [] = None"
| "findIndex P (x # xs) =
     (if P x then Some 0 else map_option Suc (findIndex P xs))"

definition setEntry :: "Handler \<Rightarrow> nat \<Rightarrow> Entry \<Rightarrow> Handler" where
  "setEntry c i e = c\<lparr>table := (table c)[i := e]\<rparr>"

text \<open>
  Modelled from the spec: \<open>findMACLocked\<close> is not in \<open>handler.go\<close>. It is the
  specification's \<open>lookupByMAC\<close>: the MAC is the lookup key, the result is the Entry or
  nothing. The first Entry with the MAC is the one found.
\<close>

definition findMACLocked :: "Handler \<Rightarrow> HardwareAddr \<Rightarrow> nat option" where
  "findMACLocked c mac = findIndex (\<lambda>e. bytes_Equal (MAC e) mac) (table c)"

text \<open>
  Modelled from the spec: \<open>FindVirtualIP\<close> is not in \<open>handler.go\<close>. It is the
  specification's \<open>lookupVirtualByIP\<close>: the IP is a lookup key for \<open>VirtualHost\<close> entries
  only.
\<close>

definition FindVirtualIP :: "Handler \<Rightarrow> IP \<Rightarrow> Entry option" where
  "FindVirtualIP c ip =
     find (\<lambda>e. State e = StateVirtualHost \<and> IP_Equal (IP e) ip) (table c)"

text \<open>The table's capacity: \<open>make([]*Entry, 0, 256)\<close> in \<open>NewHandler\<close>.\<close>

definition tableCapacity :: nat where
  "tableCapacity = 256"

text \<open>
  Modelled from the spec: \<open>arpTableAppendLocked\<close> is not in \<open>handler.go\<close>. It is the
  specification's \<open>append\<close>: it fails at capacity (\<open>None\<close>); otherwise the new Entry is
  the last of the table, with \<open>Online = false\<close>, \<open>LastUpdate = now\<close> and the state asked
  for, and the result is the table and the pointer to the new Entry.
\<close>

definition arpTableAppendLocked ::
  "Handler \<Rightarrow> time \<Rightarrow> arpState \<Rightarrow> HardwareAddr \<Rightarrow> IP \<Rightarrow> (Handler \<times> nat) option" where
  "arpTableAppendLocked c now state clientMAC clientIP =
     (if length (table c) \<ge> tableCapacity then None
      else Some (c\<lparr>table := table c @
                      [\<lparr>MAC = clientMAC, IP = clientIP, State = state,
                        Online = False, LastUpdate = now\<rparr>]\<rparr>,
                 length (table c)))"

section \<open>What a frame makes the engine do\<close>

text \<open>
  The effects of the ingest path on the outside: an ARP reply handed to \<open>c.reply\<close>
  (source MAC and IP, destination MAC and IP), the two \<open>log.Info\<close> lines that tell a
  device that came online from one that changed IP, and a copy of an Entry sent on the
  notification channel. The debug lines under \<open>LogAll\<close> and the \<open>log.Error\<close> lines are
  not modelled.
\<close>

datatype effect =
  Reply HardwareAddr IP HardwareAddr IP
| InfoOnline Entry
| InfoChangedIP Entry
| Notification chan Entry

text \<open>
  Modelled from the spec: \<open>EthernetBroadcast\<close> is not in \<open>handler.go\<close>; it is the
  network broadcast address ff:ff:ff:ff:ff:ff.
\<close>

definition EthernetBroadcast :: HardwareAddr where
  "EthernetBroadcast = [0xff, 0xff, 0xff, 0xff, 0xff, 0xff]"

text \<open>
  The \<open>marp.OperationRequest\<close> case of the switch, for the sender at index \<open>i\<close>: the
  table after it, the effects, and what it adds to \<open>notify\<close>.
\<close>

definition ListenAndServe_request ::
  "Handler \<Rightarrow> nat \<Rightarrow> Packet \<Rightarrow> Handler \<times> effect list \<times> int" where
  "ListenAndServe_request c i packet =
     (case FindVirtualIP c (TargetIP packet) of
        Some target \<Rightarrow>
          (c, [Reply (MAC target) (IP target) EthernetBroadcast (IP target)], 0)
      | None \<Rightarrow>
          (case State (table c ! i) of
             StateHunt \<Rightarrow>
               (case actionRequestInHuntState c (table c ! i) (SenderIP packet) (TargetIP packet) of
                  (e, n, _) \<Rightarrow> (setEntry c i e, [], n))
           | StateNormal \<Rightarrow>
               (case actionUpdateClient c (table c ! i) (SenderHardwareAddr packet) (SenderIP packet) of
                  (e, n) \<Rightarrow> (setEntry c i e, [], n))
           | StateVirtualHost \<Rightarrow> (c, [], 0)))"

text \<open>The \<open>marp.OperationReply\<close> case of the switch.\<close>

definition ListenAndServe_reply ::
  "Handler \<Rightarrow> nat \<Rightarrow> Packet \<Rightarrow> Handler \<times> effect list \<times> int" where
  "ListenAndServe_reply c i packet =
     (case State (table c ! i) of
        StateNormal \<Rightarrow>
          (case actionUpdateClient c (table c ! i) (SenderHardwareAddr packet) (SenderIP packet) of
             (e, n) \<Rightarrow> (setEntry c i e, [], n))
      | StateHunt \<Rightarrow>
          (if \<not> IP_Equal (SenderIP packet) IPv4zero \<and>
              \<not> IP_Equal (SenderIP packet) (IP (table c ! i))
           then (case actionUpdateClient c (table c ! i) (SenderHardwareAddr packet) (SenderIP packet) of
                   (e, n) \<Rightarrow> (setEntry c i e, [], n))
           else (c, [], 0))
      | StateVirtualHost \<Rightarrow> (c, [], 0))"

text \<open>The end of the loop body: \<open>if notify > 0 { ... }\<close>.\<close>

definition ListenAndServe_notify ::
  "Handler \<Rightarrow> nat \<Rightarrow> int \<Rightarrow> Handler \<times> effect list" where
  "ListenAndServe_notify c i notify =
     (if notify > 0 then
        (let sender = table c ! i;
             sender' = (if Online sender = False then sender\<lparr>Online := True\<rparr> else sender);
             info = (if Online sender = False then InfoOnline sender' else InfoChangedIP sender')
         in (setEntry c i sender',
             info # (case notification c of
                       Some ch \<Rightarrow> [Notification ch sender']
                     | None \<Rightarrow> [])))
      else (c, []))"

text \<open>
  The loop body from the VirtualHost check on, for the sender at index \<open>i\<close> and the
  value \<open>notify\<close> has after the lookup.
\<close>

definition ListenAndServe_sender ::
  "Handler \<Rightarrow> time \<Rightarrow> Packet \<Rightarrow> nat \<Rightarrow> int \<Rightarrow> Handler \<times> effect list" where
  "ListenAndServe_sender c now packet i notify =
     (if State (table c ! i) = StateVirtualHost then (c, [])
      else
        (let c1 = setEntry c i ((table c ! i)\<lparr>LastUpdate := now\<rparr>);
             (c2, out, n) =
               (if Operation packet = OperationRequest then ListenAndServe_request c1 i packet
                else if Operation packet = OperationReply then ListenAndServe_reply c1 i packet
                else (c1, [], 0));
             (c3, out') = ListenAndServe_notify c2 i (notify + n)
         in (c3, out @ out')))"

text \<open>
  The one outcome of a frame that the sources leave open: the sender is new and the
  table is at capacity. The specification has the append fail there and leaves what
  follows to a policy; \<open>handler.go\<close> uses the pointer the append returns without a
  check. The model ends the frame, and the loop, with this fault.
\<close>

datatype fault = TableFull

text \<open>
  The body of the loop for one frame read without error, at clock reading \<open>now\<close>: the
  Handler after it and the effects, in order.
\<close>

definition ListenAndServe_frame ::
  "Handler \<Rightarrow> time \<Rightarrow> Packet \<Rightarrow> fault + Handler \<times> effect list" where
  "ListenAndServe_frame c now packet =
     (if IsLinkLocalUnicast (SenderIP packet) \<or> IsLinkLocalUnicast (TargetIP packet)
      then Inr (c, [])
      else
        (case findMACLocked c (SenderHardwareAddr packet) of
           None \<Rightarrow>
             (if Operation packet = OperationRequest \<and> IP_Equal (SenderIP packet) IPv4zero
              then Inr (c, [])
              else
                (case arpTableAppendLocked c now StateNormal
                        (SenderHardwareAddr packet) (SenderIP packet) of
                   None \<Rightarrow> Inl TableFull
                 | Some (c', i) \<Rightarrow> Inr (ListenAndServe_sender c' now packet i 1)))
         | Some i \<Rightarrow> Inr (ListenAndServe_sender c now packet i 0)))"

text \<open>
  What one turn of the loop gets: the result of \<open>c.client.Read()\<close>, the answer of
  \<open>h.Stopping()\<close> after it, and the clock.
\<close>

datatype read = ReadPacket Packet | ReadTemporaryError | ReadError

text \<open>
  The loop over the reads it is given, in order. It ends when told to stop, on a read
  error that is not temporary, on a fault, or when the reads are used up (the socket
  then blocks).
\<close>

fun ListenAndServe_loop ::
  "Handler \<Rightarrow> (read \<times> bool \<times> time) list \<Rightarrow> Handler \<times> effect list \<times> fault option" where
  "ListenAndServe_loop c [] = (c, [], None)"
| "ListenAndServe_loop c ((r, stopping, now) # rest) =
     (if stopping then (c, [], None)
      else
        (case r of
           ReadError \<Rightarrow> (c, [], None)
         | ReadTemporaryError \<Rightarrow> ListenAndServe_loop c rest
         | ReadPacket packet \<Rightarrow>
             (case ListenAndServe_frame c now packet of
                Inl f \<Rightarrow> (c, [], Some f)
              | Inr (c', out) \<Rightarrow>
                  (case ListenAndServe_loop c' rest of
                     (c'', out', f) \<Rightarrow> (c'', out @ out', f)))))"

text \<open>\<open>ListenAndServe\<close>: nothing is read when \<open>SetReadDeadline\<close> fails.\<close>

definition ListenAndServe ::
  "Handler \<Rightarrow> bool \<Rightarrow> (read \<times> bool \<times> time) list \<Rightarrow> Handler \<times> effect list \<times> fault option" where
  "ListenAndServe c setReadDeadlineFails reads =
     (if setReadDeadlineFails then (c, [], None) else ListenAndServe_loop c reads)"

section \<open>Construction and the notification channel\<close>

text \<open>
  \<open>NewHandler\<close>. \<open>getArpClient\<close> opens the socket of the interface: it is given as
  the function from the interface's name to an error or a handle.
\<close>

definition NewHandler ::
  "(string \<Rightarrow> string + nat) \<Rightarrow> string \<Rightarrow> HardwareAddr \<Rightarrow> IP \<Rightarrow> IP \<Rightarrow> IPNet \<Rightarrow> string + Handler" where
  "NewHandler getArpClient nic hostMAC hostIP routerIP homeLAN =
     (case getArpClient nic of
        Inl err \<Rightarrow> Inl err
      | Inr cl \<Rightarrow>
          Inr \<lparr>client = cl, table = [], notification = None,
               config = \<lparr>NIC = nic, HostMAC = hostMAC, HostIP = hostIP, RouterIP = routerIP,
                         RouterMAC = [], HomeLAN = homeLAN\<rparr>\<rparr>)"

text \<open>\<open>AddNotificationChannel\<close>, the part that runs in the caller: the assignment.\<close>

definition AddNotificationChannel :: "Handler \<Rightarrow> chan option \<Rightarrow> Handler" where
  "AddNotificationChannel c notification' = c\<lparr>notification := notification'\<rparr>"

text \<open>
  The goroutine \<open>AddNotificationChannel\<close> starts. It sleeps; when it wakes it takes the
  table (\<open>table := c.table\<close>, under the lock), a slice of pointers whose length is fixed
  from then on, and ranges over it, one send for each turn. \<open>Ranging i n\<close> is the
  goroutine before turn \<open>i\<close> of \<open>n\<close>; it has ended when \<open>i = n\<close>. A send on a nil channel
  never returns: \<open>Blocked\<close>.
\<close>

datatype goroutine = Sleeping | Ranging nat nat | Blocked

text \<open>
  What reaches the outside when the ingest loop and the goroutine both run: an effect
  of the ingest loop, or a copy of an Entry the goroutine sent on a channel.
\<close>

datatype delivery = FromIngest effect | FromReplay chan Entry

text \<open>The end of the sleep: \<open>table := c.table\<close>.\<close>

definition AddNotificationChannel_wake :: "Handler \<Rightarrow> goroutine \<Rightarrow> goroutine" where
  "AddNotificationChannel_wake c g =
     (case g of Sleeping \<Rightarrow> Ranging 0 (length (table c)) | _ \<Rightarrow> g)"

text \<open>
  One turn of \<open>for i := range table\<close>: \<open>c.notification <- *table[i]\<close>. The channel and
  the Entry are read when the send is made, from the Handler as it is then. The
  pointer \<open>table[i]\<close> is the index \<open>i\<close>: the ingest loop writes an Entry in place and
  adds new ones at the end of the table.
\<close>

definition AddNotificationChannel_send :: "Handler \<Rightarrow> goroutine \<Rightarrow> goroutine \<times> delivery list" where
  "AddNotificationChannel_send c g =
     (case g of
        Ranging i n \<Rightarrow>
          (if i < n then
             (case notification c of
                None \<Rightarrow> (Blocked, [])
              | Some ch \<Rightarrow> (Ranging (Suc i) n, [FromReplay ch (table c ! i)]))
           else (g, []))
      | _ \<Rightarrow> (g, []))"

text \<open>The send of the ingest loop, among the effects of a frame.\<close>

fun isNotification :: "effect \<Rightarrow> bool" where
  "isNotification (Notification ch e) = True"
| "isNotification _ = False"

text \<open>
  The ingest loop and the goroutine run side by side. A schedule says in which order
  things happen:
  \<^item> \<open>StepFrame\<close>: the ingest loop processes a frame up to its send on the notification
    channel, the last statement of the loop body. The lookup, the writes to the table
    and the other effects of the frame are taken as one step: the goroutine reads the
    length of the table under the lock the append is made under, and the theorems on
    the goroutine speak of the MACs of its copies, which no frame writes.
  \<^item> \<open>StepNotify\<close>: the ingest loop makes the send it is at.
  \<^item> \<open>StepWake\<close>: the sleep of the goroutine ends.
  \<^item> \<open>StepSend\<close>: the goroutine makes its next send.

  A step that cannot be made changes nothing: a frame while the ingest loop is at a
  send, a send of the ingest loop when it is at none, a step of the goroutine when it
  sleeps, has ended or is blocked. \<open>interleave\<close> runs a schedule from a Handler, a
  goroutine and the sends the ingest loop is at, and gives these three at the end and
  what was delivered, in order.
\<close>

datatype step = StepFrame time Packet | StepNotify | StepWake | StepSend

fun interleave ::
  "Handler \<Rightarrow> goroutine \<Rightarrow> effect list \<Rightarrow> step list \<Rightarrow>
     Handler \<times> goroutine \<times> effect list \<times> delivery list" where
  "interleave c g p [] = (c, g, p, [])"
| "interleave c g p (StepFrame now packet # rest) =
     (if p \<noteq> [] then interleave c g p rest
      else
        (case ListenAndServe_frame c now packet of
           Inl f \<Rightarrow> (c, g, p, [])
         | Inr (c', out) \<Rightarrow>
             (case interleave c' g (filter isNotification out) rest of
                (c'', g'', p'', out') \<Rightarrow>
                  (c'', g'', p'',
                   map FromIngest (filter (\<lambda>x. \<not> isNotification x) out) @ out'))))"
| "interleave c g p (StepNotify # rest) =
     (case p of
        [] \<Rightarrow> interleave c g p rest
      | x # p' \<Rightarrow>
          (case interleave c g p' rest of
             (c'', g'', p'', out') \<Rightarrow> (c'', g'', p'', FromIngest x # out')))"
| "interleave c g p (StepWake # rest) =
     interleave c (AddNotificationChannel_wake c g) p rest"
| "interleave c g p (StepSend # rest) =
     (case AddNotificationChannel_send c g of
        (g', out) \<Rightarrow>
          (case interleave c g' p rest of
             (c'', g'', p'', out') \<Rightarrow> (c'', g'', p'', out @ out')))"

text \<open>The Entries delivered on the notification channel, in order.\<close>

fun delivered :: "effect list \<Rightarrow> Entry list" where
  "delivered [] = []"
| "delivered (Notification ch e # out) = e # delivered out"
| "delivered (_ # out) = delivered out"


text \<open>The copies the goroutine sent, in order, and the channels it sent them on.\<close>

fun replayed :: "delivery list \<Rightarrow> Entry list" where
  "replayed [] = []"
| "replayed (FromReplay ch e # ds) = e # replayed ds"
| "replayed (FromIngest x # ds) = replayed ds"

fun replayedOn :: "delivery list \<Rightarrow> chan list" where
  "replayedOn [] = []"
| "replayedOn (FromReplay ch e # ds) = ch # replayedOn ds"
| "replayedOn (FromIngest x # ds) = replayedOn ds"

text \<open>
  The Entries that arrive on the notification channel, in order, whoever sent them.
\<close>

fun received :: "delivery list \<Rightarrow> Entry list" where
  "received [] = []"
| "received (FromReplay ch e # ds) = e # received ds"
| "received (FromIngest x # ds) = delivered [x] @ received ds"

section \<open>A small network for the examples\<close>

text \<open>
  The host is 192.168.0.2 on \<open>eth0\<close>, the router 192.168.0.1. \<open>exHandler\<close> is what
  \<open>NewHandler\<close> returns for it: an empty table, no notification channel.
\<close>

definition exHostIP :: IP where
  "exHostIP = [192, 168, 0, 2]"

definition exHandler :: Handler where
  "exHandler =
     \<lparr>client = 0, table = [], notification = None,
      config = \<lparr>NIC = ''eth0'', HostMAC = [2, 0, 0, 0, 0, 1], HostIP = exHostIP,
                RouterIP = [192, 168, 0, 1], RouterMAC = [],
                HomeLAN = \<lparr>NetIP = [192, 168, 0, 0], Mask = [255, 255, 255, 0]\<rparr>\<rparr>\<rparr>"

text \<open>A device that is online at 192.168.0.5, one hunted at 192.168.0.9, and the
  virtual host that claims 192.168.0.9.\<close>

definition exNormal :: Entry where
  "exNormal = \<lparr>MAC = [2, 0, 0, 0, 0, 5], IP = [192, 168, 0, 5], State = StateNormal,
               Online = True, LastUpdate = 1\<rparr>"

definition exHunted :: Entry where
  "exHunted = \<lparr>MAC = [2, 0, 0, 0, 0, 9], IP = [192, 168, 0, 9], State = StateHunt,
               Online = True, LastUpdate = 1\<rparr>"

definition exVirtual :: Entry where
  "exVirtual = \<lparr>MAC = [2, 0, 0, 0, 0, 0xfe], IP = [192, 168, 0, 9], State = StateVirtualHost,
                Online = False, LastUpdate = 1\<rparr>"

text \<open>
  The engine with these three in its table, in this order, and channel 7 registered;
  and the engine with the first of them only and no channel.
\<close>

definition exEngine :: Handler where
  "exEngine = exHandler\<lparr>table := [exNormal, exHunted, exVirtual], notification := Some 7\<rparr>"

definition exSmall :: Handler where
  "exSmall = exHandler\<lparr>table := [exNormal]\<rparr>"

text \<open>Frames. A reply of the device at 192.168.0.5 to the host:\<close>

definition exReply5 :: Packet where
  "exReply5 = \<lparr>Operation = OperationReply, SenderHardwareAddr = [2, 0, 0, 0, 0, 5],
                SenderIP = [192, 168, 0, 5], TargetHardwareAddr = [2, 0, 0, 0, 0, 1],
                TargetIP = [192, 168, 0, 2]\<rparr>"

text \<open>A device not seen before, 02:00:00:00:00:21, probes for 192.168.0.9:\<close>

definition exProbe :: Packet where
  "exProbe = \<lparr>Operation = OperationRequest, SenderHardwareAddr = [2, 0, 0, 0, 0, 0x21],
               SenderIP = [0, 0, 0, 0], TargetHardwareAddr = [0, 0, 0, 0, 0, 0],
               TargetIP = [192, 168, 0, 9]\<rparr>"

text \<open>The same device, now at 192.168.0.33, asks for the router, and for 192.168.0.9:\<close>

definition exRequestNew :: Packet where
  "exRequestNew = \<lparr>Operation = OperationRequest, SenderHardwareAddr = [2, 0, 0, 0, 0, 0x21],
                    SenderIP = [192, 168, 0, 33], TargetHardwareAddr = [0, 0, 0, 0, 0, 0],
                    TargetIP = [192, 168, 0, 1]\<rparr>"

definition exNewWhoHas9 :: Packet where
  "exNewWhoHas9 = \<lparr>Operation = OperationRequest, SenderHardwareAddr = [2, 0, 0, 0, 0, 0x21],
                    SenderIP = [192, 168, 0, 33], TargetHardwareAddr = [0, 0, 0, 0, 0, 0],
                    TargetIP = [192, 168, 0, 9]\<rparr>"

text \<open>The Entry the engine makes for that device from a frame read at clock 9.\<close>

definition exNew :: Entry where
  "exNew = \<lparr>MAC = [2, 0, 0, 0, 0, 0x21], IP = [192, 168, 0, 33], State = StateNormal,
            Online = True, LastUpdate = 9\<rparr>"

text \<open>The same device announces a link-local address:\<close>

definition exLinkLocal :: Packet where
  "exLinkLocal = \<lparr>Operation = OperationRequest, SenderHardwareAddr = [2, 0, 0, 0, 0, 0x21],
                   SenderIP = [169, 254, 7, 7], TargetHardwareAddr = [0, 0, 0, 0, 0, 0],
                   TargetIP = [169, 254, 7, 7]\<rparr>"

text \<open>The device at 192.168.0.5 asks for 192.168.0.9:\<close>

definition exWhoHas9 :: Packet where
  "exWhoHas9 = \<lparr>Operation = OperationRequest, SenderHardwareAddr = [2, 0, 0, 0, 0, 5],
                 SenderIP = [192, 168, 0, 5], TargetHardwareAddr = [0, 0, 0, 0, 0, 0],
                 TargetIP = [192, 168, 0, 9]\<rparr>"

text \<open>A request the engine sent as the virtual host, read back from the wire:\<close>

definition exVirtualLoop :: Packet where
  "exVirtualLoop = \<lparr>Operation = OperationRequest, SenderHardwareAddr = [2, 0, 0, 0, 0, 0xfe],
                     SenderIP = [192, 168, 0, 9], TargetHardwareAddr = [0, 0, 0, 0, 0, 0],
                     TargetIP = [192, 168, 0, 9]\<rparr>"

section \<open>The Entry of a new sender\<close>

text \<open>
  The Entry with the sender MAC and sender IP of a frame, in Normal state, online,
  last updated at the clock reading of the frame.
\<close>

definition onlineEntry :: "time \<Rightarrow> Packet \<Rightarrow> Entry" where
  "onlineEntry now packet =
     \<lparr>MAC = SenderHardwareAddr packet, IP = SenderIP packet, State = StateNormal,
      Online = True, LastUpdate = now\<rparr>"

section \<open>A relation between tables\<close>

text \<open>
  \<open>onlineKept xs ys\<close>: the table \<open>ys\<close> has every Entry of \<open>xs\<close> at its index, with
  its MAC, and online if it was online in \<open>xs\<close>.
\<close>

definition onlineKept :: "Entry list \<Rightarrow> Entry list \<Rightarrow> bool" where
  "onlineKept xs ys =
     (length xs \<le> length ys \<and>
      (\<forall>j < length xs. MAC (ys ! j) = MAC (xs ! j) \<and> (Online (xs ! j) \<longrightarrow> Online (ys ! j))))"

section \<open>The address functions\<close>

lemma IP_Equal_refl: "IP_Equal a a"
  by (simp add: IP_Equal_def)

lemma NewHandler_exHandler:
  "NewHandler (\<lambda>nic. Inr 0) ''eth0'' [2, 0, 0, 0, 0, 1] exHostIP [192, 168, 0, 1]
     \<lparr>NetIP = [192, 168, 0, 0], Mask = [255, 255, 255, 0]\<rparr> = Inr exHandler"
  by (simp add: NewHandler_def exHandler_def)

section \<open>Self and gateway immunity\<close>

text \<open>
  C1. Whenever the sender IP equals the configured host IP, or the sender MAC equals
  the configured router MAC, \<open>actionUpdateClient\<close> returns 0 and leaves every field of
  the Entry as it was, whatever IP the Entry has stored. This holds for every Handler,
  so for every one \<open>NewHandler\<close> returns.
\<close>

theorem actionUpdateClient_self_gateway_immunity:
  assumes "IP_Equal senderIP (HostIP (config c)) \<or>
           bytes_Equal senderMAC (RouterMAC (config c))"
  shows "actionUpdateClient c e senderMAC senderIP = (e, 0)"
  using assms by (auto simp: actionUpdateClient_def)

text \<open>
  On the Handler \<open>NewHandler\<close> returns for the example network: a frame with the host's
  own IP as sender IP, from the MAC of the device stored at 192.168.0.5.
\<close>

theorem actionUpdateClient_self_gateway_immunity_witness:
  "NewHandler (\<lambda>nic. Inr 0) ''eth0'' [2, 0, 0, 0, 0, 1] exHostIP [192, 168, 0, 1]
     \<lparr>NetIP = [192, 168, 0, 0], Mask = [255, 255, 255, 0]\<rparr> = Inr exHandler \<and>
   IP_Equal exHostIP (HostIP (config exHandler)) \<and>
   \<not> IP_Equal (IP exNormal) exHostIP \<and>
   actionUpdateClient exHandler exNormal [2, 0, 0, 0, 0, 5] exHostIP = (exNormal, 0)"
proof -
  have h: "IP_Equal exHostIP (HostIP (config exHandler))"
    by (simp add: exHandler_def IP_Equal_def)
  have "actionUpdateClient exHandler exNormal [2, 0, 0, 0, 0, 5] exHostIP = (exNormal, 0)"
    using actionUpdateClient_self_gateway_immunity [of exHostIP exHandler "[2, 0, 0, 0, 0, 5]" exNormal] h
    by simp
  moreover have "\<not> IP_Equal (IP exNormal) exHostIP"
    by (simp add: exNormal_def exHostIP_def IP_Equal_def)
  ultimately show ?thesis
    using h NewHandler_exHandler by simp
qed

section \<open>Requests from a hunted device\<close>

text \<open>
  C2, as the code has it. \<open>actionRequestInHuntState\<close>, on any Entry:
  \<^item> a request whose sender IP is neither 0.0.0.0 nor the target IP leaves the Entry
    unchanged and returns 0, no error;
  \<^item> a probe or an announcement whose target IP differs from the stored IP, when the
    target IP is neither 0.0.0.0 nor the host IP and the Entry's MAC is not the
    router MAC, sets the Entry's IP to the target IP and its state to Normal and
    returns 1, no error;
  \<^item> a probe or an announcement whose target IP differs from the stored IP, when the
    target IP is 0.0.0.0 or the host IP or the Entry's MAC is the router MAC, leaves the
    Entry unchanged and returns 0 with an error;
  \<^item> a probe or an announcement for the stored IP leaves the Entry unchanged and
    returns 0, no error.
\<close>

theorem actionRequestInHuntState_cases:
  "(\<not> IP_Equal senderIP IPv4zero \<and> \<not> IP_Equal senderIP targetIP \<longrightarrow>
      actionRequestInHuntState c e senderIP targetIP = (e, 0, None)) \<and>
   ((IP_Equal senderIP IPv4zero \<or> IP_Equal senderIP targetIP) \<and>
    \<not> IP_Equal (IP e) targetIP \<and>
    \<not> IP_Equal targetIP IPv4zero \<and>
    \<not> bytes_Equal (MAC e) (RouterMAC (config c)) \<and>
    \<not> IP_Equal targetIP (HostIP (config c)) \<longrightarrow>
      actionRequestInHuntState c e senderIP targetIP =
        (e\<lparr>IP := targetIP, State := StateNormal\<rparr>, 1, None)) \<and>
   ((IP_Equal senderIP IPv4zero \<or> IP_Equal senderIP targetIP) \<and>
    \<not> IP_Equal (IP e) targetIP \<and>
    (IP_Equal targetIP IPv4zero \<or>
     bytes_Equal (MAC e) (RouterMAC (config c)) \<or>
     IP_Equal targetIP (HostIP (config c))) \<longrightarrow>
      actionRequestInHuntState c e senderIP targetIP =
        (e, 0, Some (ErrUpdatingClient (MAC e) (IP e)))) \<and>
   ((IP_Equal senderIP IPv4zero \<or> IP_Equal senderIP targetIP) \<and>
    IP_Equal (IP e) targetIP \<longrightarrow>
      actionRequestInHuntState c e senderIP targetIP = (e, 0, None))"
  by (auto simp: actionRequestInHuntState_def actionUpdateClient_def dupIP_def Let_def)

text \<open>
  The four cases on the hunted device of the example (stored IP 192.168.0.9): an
  ordinary request for the router, an announcement of 192.168.0.20, a probe for
  0.0.0.0, and an announcement of 192.168.0.9.
\<close>

theorem actionRequestInHuntState_cases_witness:
  "actionRequestInHuntState exHandler exHunted [192, 168, 0, 9] [192, 168, 0, 1] =
     (exHunted, 0, None) \<and>
   actionRequestInHuntState exHandler exHunted [192, 168, 0, 20] [192, 168, 0, 20] =
     (exHunted\<lparr>IP := [192, 168, 0, 20], State := StateNormal\<rparr>, 1, None) \<and>
   actionRequestInHuntState exHandler exHunted IPv4zero [0, 0, 0, 0] =
     (exHunted, 0, Some (ErrUpdatingClient [2, 0, 0, 0, 0, 9] [192, 168, 0, 9])) \<and>
   actionRequestInHuntState exHandler exHunted [192, 168, 0, 9] [192, 168, 0, 9] =
     (exHunted, 0, None)"
  using
    actionRequestInHuntState_cases [of "[192, 168, 0, 9]" "[192, 168, 0, 1]" exHandler exHunted]
    actionRequestInHuntState_cases [of "[192, 168, 0, 20]" "[192, 168, 0, 20]" exHandler exHunted]
    actionRequestInHuntState_cases [of IPv4zero "[0, 0, 0, 0]" exHandler exHunted]
    actionRequestInHuntState_cases [of "[192, 168, 0, 9]" "[192, 168, 0, 9]" exHandler exHunted]
  by (simp add: IP_Equal_def IPv4zero_def v4InV6Prefix_def bytes_Equal_def exHunted_def
      exHandler_def exHostIP_def)

text \<open>
  The hunted device of the example probes for the host's own IP, 192.168.0.2, which is
  not the IP stored for it: the Entry keeps its IP and its Hunt state, and the result
  is 0 with an error, not one change.
\<close>

theorem actionRequestInHuntState_host_IP_counterexample:
  "State exHunted = StateHunt \<and>
   IP_Equal IPv4zero IPv4zero \<and>
   \<not> IP_Equal (IP exHunted) exHostIP \<and>
   actionRequestInHuntState exHandler exHunted IPv4zero exHostIP =
     (exHunted, 0, Some (ErrUpdatingClient [2, 0, 0, 0, 0, 9] [192, 168, 0, 9]))"
  by (simp add: actionRequestInHuntState_def actionUpdateClient_def IP_Equal_def IPv4zero_def
      v4InV6Prefix_def bytes_Equal_def exHunted_def exHandler_def exHostIP_def Let_def)


section \<open>Lookups and updates of the table\<close>

lemma findIndex_Some: "findIndex P xs = Some i \<Longrightarrow> i < length xs \<and> P (xs ! i)"
  by (induction xs arbitrary: i) (auto split: if_splits)

lemma findMACLocked_Some:
  "findMACLocked c mac = Some i \<Longrightarrow>
     i < length (table c) \<and> bytes_Equal (MAC (table c ! i)) mac"
  unfolding findMACLocked_def by (rule findIndex_Some)

lemma setEntry_same: "i < length (table c) \<Longrightarrow> table (setEntry c i e) ! i = e"
  by (simp add: setEntry_def)

lemma setEntry_setEntry: "setEntry (setEntry c i e) i e' = setEntry c i e'"
  by (simp add: setEntry_def)

lemma nth_update_if: "j < length xs \<Longrightarrow> xs[i := e] ! j = (if i = j then e else xs ! j)"
  by (cases "i = j") auto

lemma find_list_update_other:
  "\<not> P (xs ! i) \<Longrightarrow> \<not> P e \<Longrightarrow> i < length xs \<Longrightarrow> find P (xs[i := e]) = find P xs"
  by (induction xs arbitrary: i) (auto split: nat.splits simp: nth_Cons')

lemma find_append_other: "\<not> P e \<Longrightarrow> find P (xs @ [e]) = find P xs"
  by (induction xs) auto

lemma FindVirtualIP_setEntry:
  assumes "i < length (table c)"
    and "State (table c ! i) \<noteq> StateVirtualHost"
    and "State e \<noteq> StateVirtualHost"
  shows "FindVirtualIP (setEntry c i e) ip = FindVirtualIP c ip"
  using assms by (simp add: FindVirtualIP_def setEntry_def find_list_update_other)

lemma FindVirtualIP_append:
  assumes "State e \<noteq> StateVirtualHost"
  shows "FindVirtualIP (c\<lparr>table := table c @ [e]\<rparr>) ip = FindVirtualIP c ip"
  using assms by (simp add: FindVirtualIP_def find_append_other)

lemma FindVirtualIP_Some:
  "FindVirtualIP c ip = Some target \<Longrightarrow>
     target \<in> set (table c) \<and> State target = StateVirtualHost \<and> IP_Equal (IP target) ip"
  by (auto simp: FindVirtualIP_def find_Some_iff)

text \<open>What the lookups find in the example engine.\<close>

lemma exEngine_lookups:
  "findMACLocked exEngine [2, 0, 0, 0, 0, 5] = Some 0"
  "findMACLocked exEngine [2, 0, 0, 0, 0, 0xfe] = Some 2"
  "findMACLocked exEngine [2, 0, 0, 0, 0, 0x21] = None"
  "FindVirtualIP exEngine [192, 168, 0, 9] = Some exVirtual"
  "FindVirtualIP exEngine [192, 168, 0, 1] = None"
  by (simp_all add: findMACLocked_def FindVirtualIP_def exEngine_def exNormal_def exHunted_def
      exVirtual_def bytes_Equal_def IP_Equal_def)

lemma example_not_link_local:
  "\<not> IsLinkLocalUnicast [192, 168, 0, 1]"
  "\<not> IsLinkLocalUnicast [192, 168, 0, 2]"
  "\<not> IsLinkLocalUnicast [192, 168, 0, 5]"
  "\<not> IsLinkLocalUnicast [192, 168, 0, 9]"
  "\<not> IsLinkLocalUnicast [192, 168, 0, 33]"
  "\<not> IsLinkLocalUnicast [0, 0, 0, 0]"
  by (simp_all add: IsLinkLocalUnicast_def To4_def)

section \<open>Frames the ingest loop discards\<close>

text \<open>
  C8. A frame whose sender IP or target IP is link-local unicast is ignored whole: the
  Handler after it is the Handler before it (no Entry created, none updated, no
  \<open>LastUpdate\<close> refreshed), and there is no effect (no notification, no reply).
\<close>

theorem link_local_frame_ignored:
  assumes "IsLinkLocalUnicast (SenderIP packet) \<or> IsLinkLocalUnicast (TargetIP packet)"
  shows "ListenAndServe_frame c now packet = Inr (c, [])"
  using assms by (auto simp add: ListenAndServe_frame_def)

theorem link_local_frame_ignored_witness:
  "IsLinkLocalUnicast (SenderIP exLinkLocal) \<and>
   ListenAndServe_frame exEngine 9 exLinkLocal = Inr (exEngine, [])"
proof -
  have h: "IsLinkLocalUnicast (SenderIP exLinkLocal)"
    by (simp add: exLinkLocal_def IsLinkLocalUnicast_def To4_def)
  then have "IsLinkLocalUnicast (SenderIP exLinkLocal) \<or> IsLinkLocalUnicast (TargetIP exLinkLocal)"
    by simp
  from link_local_frame_ignored [OF this] h show ?thesis
    by simp
qed

text \<open>
  C6. A request from a MAC that is not in the table, with sender IP 0.0.0.0, leaves the
  Handler as it was (no Entry created, nothing in the table changed) and has no effect
  (no notification).
\<close>

theorem probe_from_unseen_MAC_ignored:
  assumes "findMACLocked c (SenderHardwareAddr packet) = None"
    and "Operation packet = OperationRequest"
    and "IP_Equal (SenderIP packet) IPv4zero"
  shows "ListenAndServe_frame c now packet = Inr (c, [])"
  using assms by (simp add: ListenAndServe_frame_def)

theorem probe_from_unseen_MAC_ignored_witness:
  "findMACLocked exEngine (SenderHardwareAddr exProbe) = None \<and>
   Operation exProbe = OperationRequest \<and>
   IP_Equal (SenderIP exProbe) IPv4zero \<and>
   ListenAndServe_frame exEngine 9 exProbe = Inr (exEngine, [])"
proof -
  have h1: "findMACLocked exEngine (SenderHardwareAddr exProbe) = None"
    by (simp add: exProbe_def exEngine_lookups)
  have h2: "Operation exProbe = OperationRequest"
    by (simp add: exProbe_def)
  have h3: "IP_Equal (SenderIP exProbe) IPv4zero"
    by (simp add: exProbe_def IP_Equal_def IPv4zero_def v4InV6Prefix_def)
  from probe_from_unseen_MAC_ignored [OF h1 h2 h3] h1 h2 h3 show ?thesis
    by simp
qed

text \<open>
  C9. A frame whose sender Entry is in VirtualHost state is discarded before anything
  else is done with it: the Handler after it is the Handler before it (no dispatch,
  \<open>LastUpdate\<close> not refreshed) and there is no effect (no reply, no notification).
\<close>

theorem virtual_host_sender_discarded:
  assumes "findMACLocked c (SenderHardwareAddr packet) = Some i"
    and "State (table c ! i) = StateVirtualHost"
  shows "ListenAndServe_frame c now packet = Inr (c, [])"
  using assms by (simp add: ListenAndServe_frame_def ListenAndServe_sender_def)

theorem virtual_host_sender_discarded_witness:
  "findMACLocked exEngine (SenderHardwareAddr exVirtualLoop) = Some 2 \<and>
   State (table exEngine ! 2) = StateVirtualHost \<and>
   ListenAndServe_frame exEngine 9 exVirtualLoop = Inr (exEngine, [])"
proof -
  have h1: "findMACLocked exEngine (SenderHardwareAddr exVirtualLoop) = Some 2"
    by (simp add: exVirtualLoop_def exEngine_lookups)
  have h2: "State (table exEngine ! 2) = StateVirtualHost"
    by (simp add: exEngine_def exVirtual_def)
  from virtual_host_sender_discarded [OF h1 h2] h1 h2 show ?thesis
    by simp
qed

section \<open>A reply that brings nothing new\<close>

text \<open>
  C7, as the code has it. A reply from a MAC whose Entry is in Normal state, online and
  stored with the sender IP of the reply: \<open>actionUpdateClient\<close> returns 0 and leaves the
  Entry as it is, and the frame has no effect (no notification). The loop body itself
  refreshes the Entry's \<open>LastUpdate\<close> (unless the frame is link-local and ignored) and
  changes nothing else in the Handler.
\<close>

theorem same_reply_refreshes_LastUpdate_only:
  assumes "Operation packet = OperationReply"
    and "findMACLocked c (SenderHardwareAddr packet) = Some i"
    and "State (table c ! i) = StateNormal"
    and "Online (table c ! i)"
    and "IP_Equal (IP (table c ! i)) (SenderIP packet)"
  shows "ListenAndServe_frame c now packet =
           Inr (if IsLinkLocalUnicast (SenderIP packet) \<or> IsLinkLocalUnicast (TargetIP packet)
                then c else setEntry c i ((table c ! i)\<lparr>LastUpdate := now\<rparr>), []) \<and>
         actionUpdateClient c (table c ! i) (SenderHardwareAddr packet) (SenderIP packet) =
           (table c ! i, 0)"
proof -
  from assms(2) have i: "i < length (table c)"
    by (simp add: findMACLocked_Some)
  have neq: "OperationReply \<noteq> OperationRequest"
    by (simp add: OperationReply_def OperationRequest_def)
  let ?e = "(table c ! i)\<lparr>LastUpdate := now\<rparr>"
  let ?c1 = "setEntry c i ?e"
  have upd: "actionUpdateClient ?c1 ?e (SenderHardwareAddr packet) (SenderIP packet) = (?e, 0)"
    using assms(4,5) by (simp add: actionUpdateClient_def)
  have "ListenAndServe_reply ?c1 i packet = (?c1, [], 0)"
    using i assms(3) upd by (simp add: ListenAndServe_reply_def setEntry_same setEntry_setEntry)
  then have "ListenAndServe_sender c now packet i 0 = (?c1, [])"
    using assms(1,3) neq
    by (simp add: ListenAndServe_sender_def ListenAndServe_notify_def)
  moreover have "actionUpdateClient c (table c ! i) (SenderHardwareAddr packet) (SenderIP packet) =
           (table c ! i, 0)"
    using assms(4,5) by (simp add: actionUpdateClient_def)
  ultimately show ?thesis
    using assms(2) by (simp add: ListenAndServe_frame_def)
qed

theorem same_reply_refreshes_LastUpdate_only_witness:
  "Operation exReply5 = OperationReply \<and>
   findMACLocked exEngine (SenderHardwareAddr exReply5) = Some 0 \<and>
   State (table exEngine ! 0) = StateNormal \<and>
   Online (table exEngine ! 0) \<and>
   IP_Equal (IP (table exEngine ! 0)) (SenderIP exReply5) \<and>
   ListenAndServe_frame exEngine 9 exReply5 =
     Inr (exEngine\<lparr>table := [exNormal\<lparr>LastUpdate := 9\<rparr>, exHunted, exVirtual]\<rparr>, []) \<and>
   actionUpdateClient exEngine exNormal [2, 0, 0, 0, 0, 5] [192, 168, 0, 5] = (exNormal, 0)"
proof -
  have h1: "Operation exReply5 = OperationReply"
    by (simp add: exReply5_def)
  have h2: "findMACLocked exEngine (SenderHardwareAddr exReply5) = Some 0"
    by (simp add: exReply5_def exEngine_lookups)
  have t: "table exEngine ! 0 = exNormal"
    by (simp add: exEngine_def)
  have h3: "State (table exEngine ! 0) = StateNormal"
    by (simp add: t exNormal_def)
  have h4: "Online (table exEngine ! 0)"
    by (simp add: t exNormal_def)
  have h5: "IP_Equal (IP (table exEngine ! 0)) (SenderIP exReply5)"
    by (simp add: t exNormal_def exReply5_def IP_Equal_def)
  have ll: "\<not> IsLinkLocalUnicast (SenderIP exReply5)" "\<not> IsLinkLocalUnicast (TargetIP exReply5)"
    by (simp_all add: exReply5_def example_not_link_local)
  have s: "setEntry exEngine 0 (exNormal\<lparr>LastUpdate := 9\<rparr>) =
           exEngine\<lparr>table := [exNormal\<lparr>LastUpdate := 9\<rparr>, exHunted, exVirtual]\<rparr>"
    by (simp add: setEntry_def exEngine_def)
  have a: "SenderHardwareAddr exReply5 = [2, 0, 0, 0, 0, 5]" "SenderIP exReply5 = [192, 168, 0, 5]"
    by (simp_all add: exReply5_def)
  from same_reply_refreshes_LastUpdate_only [OF h1 h2 h3 h4 h5, of 9]
  have "ListenAndServe_frame exEngine 9 exReply5 =
          Inr (exEngine\<lparr>table := [exNormal\<lparr>LastUpdate := 9\<rparr>, exHunted, exVirtual]\<rparr>, []) \<and>
        actionUpdateClient exEngine exNormal [2, 0, 0, 0, 0, 5] [192, 168, 0, 5] = (exNormal, 0)"
    using ll by (simp add: t s a)
  with h1 h2 h3 h4 h5 show ?thesis
    by simp
qed

text \<open>
  The device at 192.168.0.5, online and in Normal state since clock 1, replies again at
  clock 9 with the same MAC and IP: its Entry is not what it was, \<open>LastUpdate\<close> is 9.
\<close>

theorem same_reply_changes_LastUpdate_counterexample:
  "table exEngine ! 0 = exNormal \<and>
   State exNormal = StateNormal \<and>
   Online exNormal \<and>
   MAC exNormal = SenderHardwareAddr exReply5 \<and>
   IP exNormal = SenderIP exReply5 \<and>
   Operation exReply5 = OperationReply \<and>
   ListenAndServe_frame exEngine 9 exReply5 =
     Inr (exEngine\<lparr>table := [exNormal\<lparr>LastUpdate := 9\<rparr>, exHunted, exVirtual]\<rparr>, []) \<and>
   exNormal\<lparr>LastUpdate := 9\<rparr> \<noteq> exNormal"
proof -
  have f: "findMACLocked exEngine (SenderHardwareAddr exReply5) = Some 0"
    by (simp add: exReply5_def exEngine_lookups)
  have ll: "\<not> IsLinkLocalUnicast (SenderIP exReply5)" "\<not> IsLinkLocalUnicast (TargetIP exReply5)"
    by (simp_all add: exReply5_def example_not_link_local)
  have t: "table exEngine ! 0 = exNormal"
    by (simp add: exEngine_def)
  have op: "Operation exReply5 \<noteq> OperationRequest" "Operation exReply5 = OperationReply"
    by (simp_all add: exReply5_def OperationReply_def OperationRequest_def)
  have u: "actionUpdateClient c (exNormal\<lparr>LastUpdate := 9\<rparr>) (SenderHardwareAddr exReply5)
             (SenderIP exReply5) = (exNormal\<lparr>LastUpdate := 9\<rparr>, 0)" for c
    by (simp add: actionUpdateClient_def exNormal_def exReply5_def IP_Equal_def)
  have "ListenAndServe_sender exEngine 9 exReply5 0 0 =
          (exEngine\<lparr>table := [exNormal\<lparr>LastUpdate := 9\<rparr>, exHunted, exVirtual]\<rparr>, [])"
    using op u
    by (simp add: ListenAndServe_sender_def ListenAndServe_reply_def ListenAndServe_notify_def
        setEntry_def t exEngine_def exNormal_def)
  then have "ListenAndServe_frame exEngine 9 exReply5 =
          Inr (exEngine\<lparr>table := [exNormal\<lparr>LastUpdate := 9\<rparr>, exHunted, exVirtual]\<rparr>, [])"
    using f ll by (simp add: ListenAndServe_frame_def)
  moreover have "exNormal\<lparr>LastUpdate := 9\<rparr> \<noteq> exNormal"
    by (simp add: exNormal_def)
  moreover have "State exNormal = StateNormal" "Online exNormal"
    "MAC exNormal = SenderHardwareAddr exReply5" "IP exNormal = SenderIP exReply5"
    by (simp_all add: exNormal_def exReply5_def)
  ultimately show ?thesis
    using t op(2) by simp
qed

section \<open>Requests for a virtual host, and new senders\<close>

text \<open>
  A request from a known sender that is not a virtual host, for the IP of a virtual
  host: the sender's \<open>LastUpdate\<close> is refreshed, one reply is sent, and the handlers of
  the sender's state are not run.
\<close>

lemma known_sender_virtual:
  assumes req: "Operation packet = OperationRequest"
    and ll: "\<not> IsLinkLocalUnicast (SenderIP packet)" "\<not> IsLinkLocalUnicast (TargetIP packet)"
    and virt: "FindVirtualIP c (TargetIP packet) = Some target"
    and found: "findMACLocked c (SenderHardwareAddr packet) = Some i"
    and st: "State (table c ! i) \<noteq> StateVirtualHost"
  shows "ListenAndServe_frame c now packet =
           Inr (setEntry c i ((table c ! i)\<lparr>LastUpdate := now\<rparr>),
                [Reply (MAC target) (IP target) EthernetBroadcast (IP target)])"
proof -
  from found have i: "i < length (table c)"
    by (simp add: findMACLocked_Some)
  let ?c1 = "setEntry c i ((table c ! i)\<lparr>LastUpdate := now\<rparr>)"
  have "FindVirtualIP ?c1 (TargetIP packet) = Some target"
    using i st virt by (simp add: FindVirtualIP_setEntry)
  then have "ListenAndServe_request ?c1 i packet =
      (?c1, [Reply (MAC target) (IP target) EthernetBroadcast (IP target)], 0)"
    by (simp add: ListenAndServe_request_def)
  then have "ListenAndServe_sender c now packet i 0 =
      (?c1, [Reply (MAC target) (IP target) EthernetBroadcast (IP target)])"
    using req st by (simp add: ListenAndServe_sender_def ListenAndServe_notify_def)
  then show ?thesis
    using ll found by (simp add: ListenAndServe_frame_def)
qed

lemma actionUpdateClient_same_IP:
  assumes "IP e = ip" and "State e = StateNormal"
  shows "actionUpdateClient c e mac ip = (e, 0) \<or> actionUpdateClient c e mac ip = (e, 1)"
  using assms by (auto simp: actionUpdateClient_def dupIP_def)

text \<open>
  A request from a MAC that is not in the table, with a sender IP that is not 0.0.0.0,
  when the table has room: the new Entry is the last of the table, and it is online
  when the frame is done. The effects are the reply for a virtual host, if the target
  IP is one's; the line that the device is online; and the copy of the Entry on the
  notification channel, if there is a channel.
\<close>

lemma new_sender_request:
  assumes req: "Operation packet = OperationRequest"
    and ll: "\<not> IsLinkLocalUnicast (SenderIP packet)" "\<not> IsLinkLocalUnicast (TargetIP packet)"
    and absent: "findMACLocked c (SenderHardwareAddr packet) = None"
    and nz: "\<not> IP_Equal (SenderIP packet) IPv4zero"
    and cap: "length (table c) < tableCapacity"
  shows "ListenAndServe_frame c now packet =
           Inr (c\<lparr>table := table c @ [onlineEntry now packet]\<rparr>,
                (case FindVirtualIP c (TargetIP packet) of
                   Some target \<Rightarrow> [Reply (MAC target) (IP target) EthernetBroadcast (IP target)]
                 | None \<Rightarrow> []) @
                InfoOnline (onlineEntry now packet) #
                (case notification c of
                   Some ch \<Rightarrow> [Notification ch (onlineEntry now packet)]
                 | None \<Rightarrow> []))"
proof -
  let ?e0 = "\<lparr>MAC = SenderHardwareAddr packet, IP = SenderIP packet,
               State = StateNormal, Online = False, LastUpdate = now\<rparr>"
  let ?e1 = "onlineEntry now packet"
  let ?c' = "c\<lparr>table := table c @ [?e0]\<rparr>"
  let ?i = "length (table c)"
  let ?r = "(case FindVirtualIP c (TargetIP packet) of
                   Some target \<Rightarrow> [Reply (MAC target) (IP target) EthernetBroadcast (IP target)]
                 | None \<Rightarrow> [])"
  have app: "arpTableAppendLocked c now StateNormal (SenderHardwareAddr packet) (SenderIP packet) =
      Some (?c', ?i)"
    using cap by (simp add: arpTableAppendLocked_def)
  have c1: "setEntry ?c' ?i (?e0\<lparr>LastUpdate := now\<rparr>) = ?c'"
    by (simp add: setEntry_def)
  have fv: "FindVirtualIP ?c' (TargetIP packet) = FindVirtualIP c (TargetIP packet)"
    by (simp add: FindVirtualIP_append)
  have "\<exists>n. (n = 0 \<or> n = 1) \<and> ListenAndServe_request ?c' ?i packet = (?c', ?r, n)"
  proof (cases "FindVirtualIP c (TargetIP packet)")
    case None
    then show ?thesis
      using fv actionUpdateClient_same_IP [of ?e0 "SenderIP packet" ?c' "SenderHardwareAddr packet"]
      by (auto simp: ListenAndServe_request_def setEntry_def)
  next
    case (Some t)
    then show ?thesis
      using fv by (simp add: ListenAndServe_request_def)
  qed
  then obtain n where n: "n = 0 \<or> n = 1"
    and rq: "ListenAndServe_request ?c' ?i packet = (?c', ?r, n)"
    by blast
  have nt: "ListenAndServe_notify ?c' ?i (1 + n) =
      (c\<lparr>table := table c @ [?e1]\<rparr>,
       InfoOnline ?e1 # (case notification c of Some ch \<Rightarrow> [Notification ch ?e1] | None \<Rightarrow> []))"
    using n
    by (auto simp: ListenAndServe_notify_def setEntry_def Let_def onlineEntry_def
        split: option.split)
  have "ListenAndServe_sender ?c' now packet ?i 1 =
      (c\<lparr>table := table c @ [?e1]\<rparr>,
       ?r @ InfoOnline ?e1 # (case notification c of Some ch \<Rightarrow> [Notification ch ?e1] | None \<Rightarrow> []))"
    unfolding ListenAndServe_sender_def using req rq nt c1
    by (simp add: Let_def)
  then show ?thesis
    using ll absent nz app by (simp add: ListenAndServe_frame_def)
qed

lemma example_new_sender:
  "findMACLocked exHandler [2, 0, 0, 0, 0, 0x21] = None"
  "\<not> IP_Equal [192, 168, 0, 33] IPv4zero"
  "length (table exEngine) < tableCapacity"
  "length (table exHandler) < tableCapacity"
  "length (table exSmall) < tableCapacity"
  "findMACLocked exSmall [2, 0, 0, 0, 0, 0x21] = None"
  "FindVirtualIP exHandler [192, 168, 0, 1] = None"
  "FindVirtualIP exSmall [192, 168, 0, 1] = None"
  "onlineEntry 9 exRequestNew = exNew"
  "onlineEntry 9 exNewWhoHas9 = exNew"
  by (simp_all add: findMACLocked_def FindVirtualIP_def exHandler_def exEngine_def exSmall_def
      exNormal_def tableCapacity_def IP_Equal_def IPv4zero_def v4InV6Prefix_def bytes_Equal_def
      onlineEntry_def exRequestNew_def exNewWhoHas9_def exNew_def)

text \<open>
  C3, as the code has it. For a request frame that the loop does not discard before
  the switch (neither IP link-local, the sender not a virtual host, the sender not a
  new MAC probing with 0.0.0.0), if the target IP is that of a registered VirtualHost
  Entry the engine sends exactly one reply, from the virtual MAC and IP to the
  broadcast address, and runs no handler of the sender's state:
  \<^item> for a sender in the table, in Normal or Hunt state, the only change of the table is
    the sender's \<open>LastUpdate\<close>, and the reply is the only effect;
  \<^item> for a sender not in the table (the table having room), the only change of the
    table is the new Entry, online, and the reply is followed by the online line and,
    if a channel is registered, by the notification of the new Entry.
\<close>

theorem virtual_host_reply:
  assumes "Operation packet = OperationRequest"
    and "\<not> IsLinkLocalUnicast (SenderIP packet)"
    and "\<not> IsLinkLocalUnicast (TargetIP packet)"
    and "FindVirtualIP c (TargetIP packet) = Some target"
  shows "State target = StateVirtualHost \<and> IP_Equal (IP target) (TargetIP packet) \<and>
         (\<forall>i. findMACLocked c (SenderHardwareAddr packet) = Some i \<and>
              State (table c ! i) \<noteq> StateVirtualHost \<longrightarrow>
              ListenAndServe_frame c now packet =
                Inr (setEntry c i ((table c ! i)\<lparr>LastUpdate := now\<rparr>),
                     [Reply (MAC target) (IP target) EthernetBroadcast (IP target)])) \<and>
         (findMACLocked c (SenderHardwareAddr packet) = None \<and>
          \<not> IP_Equal (SenderIP packet) IPv4zero \<and>
          length (table c) < tableCapacity \<longrightarrow>
            ListenAndServe_frame c now packet =
              Inr (c\<lparr>table := table c @ [onlineEntry now packet]\<rparr>,
                   Reply (MAC target) (IP target) EthernetBroadcast (IP target) #
                   InfoOnline (onlineEntry now packet) #
                   (case notification c of
                      Some ch \<Rightarrow> [Notification ch (onlineEntry now packet)]
                    | None \<Rightarrow> [])))"
  using assms known_sender_virtual [OF assms] new_sender_request [OF assms(1,2,3), of c now]
    FindVirtualIP_Some [OF assms(4)]
  by simp

theorem virtual_host_reply_witness:
  "ListenAndServe_frame exEngine 9 exWhoHas9 =
     Inr (exEngine\<lparr>table := [exNormal\<lparr>LastUpdate := 9\<rparr>, exHunted, exVirtual]\<rparr>,
          [Reply [2, 0, 0, 0, 0, 0xfe] [192, 168, 0, 9] EthernetBroadcast [192, 168, 0, 9]]) \<and>
   ListenAndServe_frame exEngine 9 exNewWhoHas9 =
     Inr (exEngine\<lparr>table := [exNormal, exHunted, exVirtual, exNew]\<rparr>,
          [Reply [2, 0, 0, 0, 0, 0xfe] [192, 168, 0, 9] EthernetBroadcast [192, 168, 0, 9],
           InfoOnline exNew, Notification 7 exNew])"
proof -
  have a: "Operation exWhoHas9 = OperationRequest"
    "\<not> IsLinkLocalUnicast (SenderIP exWhoHas9)" "\<not> IsLinkLocalUnicast (TargetIP exWhoHas9)"
    "FindVirtualIP exEngine (TargetIP exWhoHas9) = Some exVirtual"
    by (simp_all add: exWhoHas9_def example_not_link_local exEngine_lookups)
  have a': "findMACLocked exEngine (SenderHardwareAddr exWhoHas9) = Some 0 \<and>
            State (table exEngine ! 0) \<noteq> StateVirtualHost"
    by (simp add: exWhoHas9_def exEngine_lookups) (simp add: exEngine_def exNormal_def)
  have b: "Operation exNewWhoHas9 = OperationRequest"
    "\<not> IsLinkLocalUnicast (SenderIP exNewWhoHas9)" "\<not> IsLinkLocalUnicast (TargetIP exNewWhoHas9)"
    "FindVirtualIP exEngine (TargetIP exNewWhoHas9) = Some exVirtual"
    by (simp_all add: exNewWhoHas9_def example_not_link_local exEngine_lookups)
  have b': "findMACLocked exEngine (SenderHardwareAddr exNewWhoHas9) = None \<and>
            \<not> IP_Equal (SenderIP exNewWhoHas9) IPv4zero \<and>
            length (table exEngine) < tableCapacity"
    by (simp add: exNewWhoHas9_def exEngine_lookups example_new_sender)
  have v: "MAC exVirtual = [2, 0, 0, 0, 0, 0xfe]" "IP exVirtual = [192, 168, 0, 9]"
    by (simp_all add: exVirtual_def)
  have t: "setEntry exEngine 0 ((table exEngine ! 0)\<lparr>LastUpdate := 9\<rparr>) =
           exEngine\<lparr>table := [exNormal\<lparr>LastUpdate := 9\<rparr>, exHunted, exVirtual]\<rparr>"
    "exEngine\<lparr>table := table exEngine @ [exNew]\<rparr> =
     exEngine\<lparr>table := [exNormal, exHunted, exVirtual, exNew]\<rparr>"
    "notification exEngine = Some 7"
    by (simp_all add: setEntry_def exEngine_def)
  from virtual_host_reply [OF a, of 9] a'
  have 1: "ListenAndServe_frame exEngine 9 exWhoHas9 =
     Inr (exEngine\<lparr>table := [exNormal\<lparr>LastUpdate := 9\<rparr>, exHunted, exVirtual]\<rparr>,
          [Reply [2, 0, 0, 0, 0, 0xfe] [192, 168, 0, 9] EthernetBroadcast [192, 168, 0, 9]])"
    by (simp add: v t)
  from virtual_host_reply [OF b, of 9] b'
  have 2: "ListenAndServe_frame exEngine 9 exNewWhoHas9 =
     Inr (exEngine\<lparr>table := [exNormal, exHunted, exVirtual, exNew]\<rparr>,
          [Reply [2, 0, 0, 0, 0, 0xfe] [192, 168, 0, 9] EthernetBroadcast [192, 168, 0, 9],
           InfoOnline exNew, Notification 7 exNew])"
    by (simp add: v t example_new_sender)
  from 1 2 show ?thesis
    by simp
qed

text \<open>
  Two requests for 192.168.0.9, the IP of the virtual host of the example engine, that
  get no reply: one whose sender is the virtual host itself, and a probe from a MAC
  the engine has not seen.
\<close>

theorem virtual_host_no_reply_counterexample:
  "Operation exVirtualLoop = OperationRequest \<and>
   FindVirtualIP exEngine (TargetIP exVirtualLoop) = Some exVirtual \<and>
   ListenAndServe_frame exEngine 9 exVirtualLoop = Inr (exEngine, []) \<and>
   Operation exProbe = OperationRequest \<and>
   FindVirtualIP exEngine (TargetIP exProbe) = Some exVirtual \<and>
   ListenAndServe_frame exEngine 9 exProbe = Inr (exEngine, [])"
proof -
  have 1: "ListenAndServe_frame exEngine 9 exVirtualLoop = Inr (exEngine, [])"
    by (simp add: ListenAndServe_frame_def ListenAndServe_sender_def exVirtualLoop_def
        example_not_link_local exEngine_lookups)
      (simp add: exEngine_def exVirtual_def)
  have 2: "ListenAndServe_frame exEngine 9 exProbe = Inr (exEngine, [])"
    by (simp add: ListenAndServe_frame_def exProbe_def example_not_link_local exEngine_lookups
        IP_Equal_def IPv4zero_def v4InV6Prefix_def)
  from 1 2 show ?thesis
    by (simp add: exVirtualLoop_def exProbe_def exEngine_lookups)
qed

section \<open>New host detection\<close>

text \<open>
  C5, as the code has it. A request frame whose sender MAC is not in the table and
  whose sender IP is not 0.0.0.0 (neither IP of the frame link-local, the table having
  room) adds exactly one Entry to the table, the last, in Normal state with the MAC
  and IP of the sender, and marks it online. The one online line is written for it;
  exactly one notification, a copy of that Entry, is sent when a notification channel
  is registered, and none when there is no channel. If the target IP is a virtual
  host's, the reply for it comes first.
\<close>

theorem new_host_detection:
  assumes "Operation packet = OperationRequest"
    and "\<not> IsLinkLocalUnicast (SenderIP packet)"
    and "\<not> IsLinkLocalUnicast (TargetIP packet)"
    and "findMACLocked c (SenderHardwareAddr packet) = None"
    and "\<not> IP_Equal (SenderIP packet) IPv4zero"
    and "length (table c) < tableCapacity"
  shows "\<exists>out. ListenAndServe_frame c now packet =
                 Inr (c\<lparr>table := table c @ [onlineEntry now packet]\<rparr>, out) \<and>
               filter (\<lambda>x. x = InfoOnline (onlineEntry now packet)) out =
                 [InfoOnline (onlineEntry now packet)] \<and>
               delivered out =
                 (case notification c of Some ch \<Rightarrow> [onlineEntry now packet] | None \<Rightarrow> [])"
  using new_sender_request [OF assms, of now]
  by (auto split: option.split)

theorem new_host_detection_witness:
  "ListenAndServe_frame exEngine 9 exRequestNew =
     Inr (exEngine\<lparr>table := [exNormal, exHunted, exVirtual, exNew]\<rparr>,
          [InfoOnline exNew, Notification 7 exNew]) \<and>
   delivered [InfoOnline exNew, Notification 7 exNew] = [exNew]"
proof -
  have a: "Operation exRequestNew = OperationRequest"
    "\<not> IsLinkLocalUnicast (SenderIP exRequestNew)" "\<not> IsLinkLocalUnicast (TargetIP exRequestNew)"
    "findMACLocked exEngine (SenderHardwareAddr exRequestNew) = None"
    "\<not> IP_Equal (SenderIP exRequestNew) IPv4zero"
    "length (table exEngine) < tableCapacity"
    by (simp_all add: exRequestNew_def example_not_link_local exEngine_lookups example_new_sender)
  have t: "exEngine\<lparr>table := table exEngine @ [exNew]\<rparr> =
     exEngine\<lparr>table := [exNormal, exHunted, exVirtual, exNew]\<rparr>"
    "notification exEngine = Some 7"
    by (simp_all add: exEngine_def)
  have fv: "FindVirtualIP exEngine (TargetIP exRequestNew) = None"
    by (simp add: exRequestNew_def exEngine_lookups)
  have r: "ListenAndServe_frame exEngine 9 exRequestNew =
     Inr (exEngine\<lparr>table := [exNormal, exHunted, exVirtual, exNew]\<rparr>,
          [InfoOnline exNew, Notification 7 exNew])"
    using new_sender_request [OF a, of 9]
    by (simp add: t example_new_sender fv)
  from new_host_detection [OF a, of 9] r show ?thesis
    by simp
qed

text \<open>
  On the Handler as \<open>NewHandler\<close> returns it, with no notification channel, the request
  of the new device at 192.168.0.33 makes its Entry and marks it online; nothing is
  sent on a channel.
\<close>

theorem new_host_without_channel_counterexample:
  "notification exHandler = None \<and>
   findMACLocked exHandler (SenderHardwareAddr exRequestNew) = None \<and>
   Operation exRequestNew = OperationRequest \<and>
   \<not> IP_Equal (SenderIP exRequestNew) IPv4zero \<and>
   ListenAndServe_frame exHandler 9 exRequestNew =
     Inr (exHandler\<lparr>table := [exNew]\<rparr>, [InfoOnline exNew]) \<and>
   delivered [InfoOnline exNew] = []"
proof -
  have a: "Operation exRequestNew = OperationRequest"
    "\<not> IsLinkLocalUnicast (SenderIP exRequestNew)" "\<not> IsLinkLocalUnicast (TargetIP exRequestNew)"
    "findMACLocked exHandler (SenderHardwareAddr exRequestNew) = None"
    "\<not> IP_Equal (SenderIP exRequestNew) IPv4zero"
    "length (table exHandler) < tableCapacity"
    by (simp_all add: exRequestNew_def example_not_link_local example_new_sender)
  have t: "exHandler\<lparr>table := table exHandler @ [exNew]\<rparr> = exHandler\<lparr>table := [exNew]\<rparr>"
    "notification exHandler = None"
    by (simp_all add: exHandler_def)
  have fv: "FindVirtualIP exHandler (TargetIP exRequestNew) = None"
    by (simp add: exRequestNew_def example_new_sender)
  have "ListenAndServe_frame exHandler 9 exRequestNew =
     Inr (exHandler\<lparr>table := [exNew]\<rparr>, [InfoOnline exNew])"
    using new_sender_request [OF a, of 9]
    by (simp add: t example_new_sender fv)
  with a t show ?thesis
    by simp
qed

section \<open>Online is never cleared by the ingest loop\<close>

lemma onlineKept_refl: "onlineKept xs xs"
  by (simp add: onlineKept_def)

lemma onlineKept_trans: "onlineKept xs ys \<Longrightarrow> onlineKept ys zs \<Longrightarrow> onlineKept xs zs"
  by (auto simp: onlineKept_def)

lemma onlineKept_update:
  "MAC e = MAC (xs ! i) \<Longrightarrow> (Online (xs ! i) \<longrightarrow> Online e) \<Longrightarrow> onlineKept xs (xs[i := e])"
  by (auto simp: onlineKept_def nth_update_if)

lemma onlineKept_append: "onlineKept xs (xs @ ys)"
  by (simp add: onlineKept_def nth_append)

text \<open>The two handlers write neither the MAC nor \<open>Online\<close>.\<close>

lemma actionUpdateClient_keeps:
  "actionUpdateClient c e mac ip = (e', n) \<Longrightarrow> MAC e' = MAC e \<and> Online e' = Online e"
  by (auto simp: actionUpdateClient_def split: if_splits)

lemma actionRequestInHuntState_keeps:
  "actionRequestInHuntState c e sip tip = (e', n, err) \<Longrightarrow>
     MAC e' = MAC e \<and> Online e' = Online e"
  by (auto simp: actionRequestInHuntState_def Let_def split: if_splits prod.splits
      dest: actionUpdateClient_keeps)

text \<open>Each part of the loop body keeps the Entries online, and the channel.\<close>

lemma ListenAndServe_request_keeps:
  assumes "ListenAndServe_request c i packet = (c', out, n)"
  shows "onlineKept (table c) (table c') \<and> notification c' = notification c"
proof (cases "FindVirtualIP c (TargetIP packet)")
  case (Some t)
  with assms show ?thesis
    by (auto simp: ListenAndServe_request_def onlineKept_refl)
next
  case None
  show ?thesis
  proof (cases "State (table c ! i)")
    case StateNormal
    with None assms show ?thesis
      by (auto simp: ListenAndServe_request_def setEntry_def split: prod.splits
          dest!: actionUpdateClient_keeps intro!: onlineKept_update)
  next
    case StateHunt
    with None assms show ?thesis
      by (auto simp: ListenAndServe_request_def setEntry_def split: prod.splits
          dest!: actionRequestInHuntState_keeps intro!: onlineKept_update)
  next
    case StateVirtualHost
    with None assms show ?thesis
      by (auto simp: ListenAndServe_request_def onlineKept_refl)
  qed
qed

lemma ListenAndServe_reply_keeps:
  assumes "ListenAndServe_reply c i packet = (c', out, n)"
  shows "onlineKept (table c) (table c') \<and> notification c' = notification c"
proof (cases "State (table c ! i)")
  case StateNormal
  with assms show ?thesis
    by (auto simp: ListenAndServe_reply_def setEntry_def split: prod.splits
        dest!: actionUpdateClient_keeps intro!: onlineKept_update)
next
  case StateHunt
  with assms show ?thesis
    by (auto simp: ListenAndServe_reply_def setEntry_def onlineKept_refl
        split: prod.splits if_splits
        dest!: actionUpdateClient_keeps intro!: onlineKept_update)
next
  case StateVirtualHost
  with assms show ?thesis
    by (auto simp: ListenAndServe_reply_def onlineKept_refl)
qed

lemma ListenAndServe_notify_keeps:
  assumes "ListenAndServe_notify c i n = (c', out)"
  shows "onlineKept (table c) (table c') \<and> notification c' = notification c"
  using assms
  by (auto simp: ListenAndServe_notify_def setEntry_def Let_def onlineKept_refl
      split: if_splits intro!: onlineKept_update)

lemma ListenAndServe_sender_keeps:
  assumes "ListenAndServe_sender c now packet i n = (c', out)"
  shows "onlineKept (table c) (table c') \<and> notification c' = notification c"
proof (cases "State (table c ! i) = StateVirtualHost")
  case True
  with assms show ?thesis
    by (auto simp: ListenAndServe_sender_def onlineKept_refl)
next
  case False
  let ?c1 = "setEntry c i ((table c ! i)\<lparr>LastUpdate := now\<rparr>)"
  obtain c2 out2 n2 where d:
    "(if Operation packet = OperationRequest then ListenAndServe_request ?c1 i packet
      else if Operation packet = OperationReply then ListenAndServe_reply ?c1 i packet
      else (?c1, [], 0)) = (c2, out2, n2)"
    by (metis prod_cases3)
  obtain c3 out3 where nt: "ListenAndServe_notify c2 i (n + n2) = (c3, out3)"
    by (metis surj_pair)
  have c': "c' = c3"
    using assms False d nt by (simp add: ListenAndServe_sender_def Let_def)
  have k1: "onlineKept (table c) (table ?c1) \<and> notification ?c1 = notification c"
    by (simp add: setEntry_def onlineKept_update)
  have k2: "onlineKept (table ?c1) (table c2) \<and> notification c2 = notification ?c1"
    using d ListenAndServe_request_keeps [of ?c1 i packet c2 out2 n2]
      ListenAndServe_reply_keeps [of ?c1 i packet c2 out2 n2]
    by (auto simp: onlineKept_refl split: if_splits)
  have k3: "onlineKept (table c2) (table c3) \<and> notification c3 = notification c2"
    using nt by (rule ListenAndServe_notify_keeps)
  show ?thesis
    using c' k1 k2 k3 by (auto intro: onlineKept_trans)
qed

lemma ListenAndServe_frame_keeps:
  assumes "ListenAndServe_frame c now packet = Inr (c', out)"
  shows "onlineKept (table c) (table c') \<and> notification c' = notification c"
proof (cases "IsLinkLocalUnicast (SenderIP packet) \<or> IsLinkLocalUnicast (TargetIP packet)")
  case True
  with assms show ?thesis
    by (auto simp: ListenAndServe_frame_def onlineKept_refl)
next
  case ll: False
  show ?thesis
  proof (cases "findMACLocked c (SenderHardwareAddr packet)")
    case (Some i)
    with ll assms have "ListenAndServe_sender c now packet i 0 = (c', out)"
      by (simp add: ListenAndServe_frame_def)
    then show ?thesis by (rule ListenAndServe_sender_keeps)
  next
    case None
    show ?thesis
    proof (cases "Operation packet = OperationRequest \<and> IP_Equal (SenderIP packet) IPv4zero")
      case True
      with None ll assms show ?thesis
        by (auto simp: ListenAndServe_frame_def onlineKept_refl)
    next
      case False
      with None ll assms obtain c1 i where
        app: "arpTableAppendLocked c now StateNormal (SenderHardwareAddr packet)
                (SenderIP packet) = Some (c1, i)"
        and s: "ListenAndServe_sender c1 now packet i 1 = (c', out)"
        by (auto simp: ListenAndServe_frame_def split: option.splits)
      from app have "onlineKept (table c) (table c1) \<and> notification c1 = notification c"
        by (auto simp: arpTableAppendLocked_def onlineKept_append split: if_splits)
      with ListenAndServe_sender_keeps [OF s] show ?thesis
        by (auto intro: onlineKept_trans)
    qed
  qed
qed

text \<open>The loop, by induction on the reads.\<close>

lemma ListenAndServe_loop_keeps:
  "ListenAndServe_loop c reads = (c', out, f) \<Longrightarrow> onlineKept (table c) (table c')"
proof (induction reads arbitrary: c c' out f)
  case Nil
  then show ?case by (simp add: onlineKept_refl)
next
  case (Cons r reads)
  obtain rd stopping now where r: "r = (rd, stopping, now)"
    by (metis prod_cases3)
  show ?case
  proof (cases "stopping")
    case True
    with Cons.prems r show ?thesis by (simp add: onlineKept_refl)
  next
    case False
    show ?thesis
    proof (cases rd)
      case ReadError
      with Cons.prems r False show ?thesis by (simp add: onlineKept_refl)
    next
      case ReadTemporaryError
      with Cons.prems r False have "ListenAndServe_loop c reads = (c', out, f)" by simp
      then show ?thesis by (rule Cons.IH)
    next
      case (ReadPacket packet)
      show ?thesis
      proof (cases "ListenAndServe_frame c now packet")
        case (Inl flt)
        with Cons.prems r False ReadPacket show ?thesis by (simp add: onlineKept_refl)
      next
        case (Inr p)
        obtain c1 out1 where p: "p = (c1, out1)" by (metis surj_pair)
        obtain c2 out2 f2 where l: "ListenAndServe_loop c1 reads = (c2, out2, f2)"
          by (metis prod_cases3)
        from Cons.prems r False ReadPacket Inr p l have "c' = c2" by simp
        moreover have "onlineKept (table c) (table c1)"
          using Inr p ListenAndServe_frame_keeps by blast
        moreover have "onlineKept (table c1) (table c2)"
          using l by (rule Cons.IH)
        ultimately show ?thesis by (auto intro: onlineKept_trans)
      qed
    qed
  qed
qed

text \<open>
  C10. Whatever the ingest loop reads, and however it ends, an Entry that was online
  when \<open>ListenAndServe\<close> started is still in the table at the same place, with the same
  MAC, and online, when it ends: frame processing never takes \<open>Online\<close> from true to
  false.
\<close>

theorem ListenAndServe_never_clears_Online:
  assumes "ListenAndServe c setReadDeadlineFails reads = (c', out, f)"
    and "i < length (table c)"
    and "Online (table c ! i)"
  shows "i < length (table c') \<and>
         MAC (table c' ! i) = MAC (table c ! i) \<and>
         Online (table c' ! i)"
proof -
  have "onlineKept (table c) (table c')"
    using assms(1) ListenAndServe_loop_keeps [of c reads c' out f]
    by (auto simp: ListenAndServe_def onlineKept_refl split: if_splits)
  with assms(2,3) show ?thesis
    by (auto simp: onlineKept_def)
qed

text \<open>
  The example engine reads the request of the new device, then a temporary error, then
  is told to stop: the device at 192.168.0.5 is online before and after.
\<close>

lemma exEngine_new_host_frame:
  "ListenAndServe_frame exEngine 9 exRequestNew =
     Inr (exEngine\<lparr>table := [exNormal, exHunted, exVirtual, exNew]\<rparr>,
          [InfoOnline exNew, Notification 7 exNew])"
proof -
  have a: "Operation exRequestNew = OperationRequest"
    "\<not> IsLinkLocalUnicast (SenderIP exRequestNew)" "\<not> IsLinkLocalUnicast (TargetIP exRequestNew)"
    "findMACLocked exEngine (SenderHardwareAddr exRequestNew) = None"
    "\<not> IP_Equal (SenderIP exRequestNew) IPv4zero"
    "length (table exEngine) < tableCapacity"
    by (simp_all add: exRequestNew_def example_not_link_local exEngine_lookups example_new_sender)
  have t: "exEngine\<lparr>table := table exEngine @ [exNew]\<rparr> =
     exEngine\<lparr>table := [exNormal, exHunted, exVirtual, exNew]\<rparr>"
    "notification exEngine = Some 7"
    by (simp_all add: exEngine_def)
  have fv: "FindVirtualIP exEngine (TargetIP exRequestNew) = None"
    by (simp add: exRequestNew_def exEngine_lookups)
  show ?thesis
    using new_sender_request [OF a, of 9]
    by (simp add: t example_new_sender fv)
qed

theorem ListenAndServe_never_clears_Online_witness:
  "ListenAndServe exEngine False
     [(ReadPacket exRequestNew, False, 9), (ReadTemporaryError, False, 10),
      (ReadPacket exLinkLocal, True, 11)] =
     (exEngine\<lparr>table := [exNormal, exHunted, exVirtual, exNew]\<rparr>,
      [InfoOnline exNew, Notification 7 exNew], None) \<and>
   Online (table exEngine ! 0) \<and>
   Online (table (exEngine\<lparr>table := [exNormal, exHunted, exVirtual, exNew]\<rparr>) ! 0)"
proof -
  have r: "ListenAndServe exEngine False
     [(ReadPacket exRequestNew, False, 9), (ReadTemporaryError, False, 10),
      (ReadPacket exLinkLocal, True, 11)] =
     (exEngine\<lparr>table := [exNormal, exHunted, exVirtual, exNew]\<rparr>,
      [InfoOnline exNew, Notification 7 exNew], None)"
    by (simp add: ListenAndServe_def exEngine_new_host_frame)
  have i: "0 < length (table exEngine)" and o: "Online (table exEngine ! 0)"
    by (simp_all add: exEngine_def exNormal_def)
  from ListenAndServe_never_clears_Online [OF r i o] r o show ?thesis
    by simp
qed

section \<open>The replay of the table to a new notification channel\<close>

lemma replayed_FromIngest: "replayed (map FromIngest xs @ ds) = replayed ds"
  by (induction xs) auto

lemma replayedOn_FromIngest: "replayedOn (map FromIngest xs @ ds) = replayedOn ds"
  by (induction xs) auto

lemma onlineKept_MAC_take:
  assumes "onlineKept xs ys" and "j \<le> length xs"
  shows "map MAC (take j ys) = map MAC (take j xs)"
  using assms by (auto simp: onlineKept_def list_eq_iff_nth_eq)

text \<open>
  The goroutine from turn \<open>i\<close> on, whatever the schedule: it stays in its range, and what
  it has sent when it is before turn \<open>j\<close> are copies of the Entries \<open>i\<close> to \<open>j - 1\<close>, in
  order. The frames processed meanwhile leave the MAC of each of these Entries alone.
\<close>

lemma interleave_ranging:
  "interleave c (Ranging i m) p sched = (c', Ranging j k, p', out) \<Longrightarrow>
   notification c = Some ch \<Longrightarrow> i \<le> m \<Longrightarrow> m \<le> length (table c) \<Longrightarrow>
     k = m \<and> i \<le> j \<and> j \<le> m \<and>
     map MAC (replayed out) = map MAC (drop i (take j (table c))) \<and>
     set (replayedOn out) \<subseteq> {ch} \<and>
     onlineKept (table c) (table c') \<and> notification c' = Some ch"
proof (induction sched arbitrary: c i p out)
  case Nil
  then show ?case by (simp add: onlineKept_refl)
next
  case (Cons s sched)
  show ?case
  proof (cases s)
    case (StepFrame now packet)
    show ?thesis
    proof (cases "p \<noteq> []")
      case True
      with Cons.prems StepFrame
      have "interleave c (Ranging i m) p sched = (c', Ranging j k, p', out)"
        by simp
      from Cons.IH [OF this Cons.prems(2,3,4)] show ?thesis .
    next
      case False
      show ?thesis
      proof (cases "ListenAndServe_frame c now packet")
        case (Inl flt)
        with Cons.prems StepFrame False show ?thesis by (simp add: onlineKept_refl)
      next
        case (Inr q)
        obtain c1 o1 where q: "q = (c1, o1)" by (metis surj_pair)
        obtain c2 g2 p2 out2 where
          l: "interleave c1 (Ranging i m) (filter isNotification o1) sched = (c2, g2, p2, out2)"
          by (metis prod_cases4)
        from Cons.prems(1) StepFrame False Inr q l
        have e: "c' = c2" "g2 = Ranging j k" "p2 = p'"
          "out = map FromIngest (filter (\<lambda>x. \<not> isNotification x) o1) @ out2"
          by simp_all
        from Inr q ListenAndServe_frame_keeps
        have k1: "onlineKept (table c) (table c1)" and n1: "notification c1 = notification c"
          by blast+
        from k1 Cons.prems(4) have m1: "m \<le> length (table c1)"
          by (simp add: onlineKept_def)
        from n1 Cons.prems(2) have n1': "notification c1 = Some ch"
          by simp
        from l e have l': "interleave c1 (Ranging i m) (filter isNotification o1) sched =
            (c', Ranging j k, p', out2)"
          by simp
        from Cons.IH [OF l' n1' Cons.prems(3) m1]
        have ih: "k = m \<and> i \<le> j \<and> j \<le> m \<and>
          map MAC (replayed out2) = map MAC (drop i (take j (table c1))) \<and>
          set (replayedOn out2) \<subseteq> {ch} \<and> onlineKept (table c1) (table c') \<and>
          notification c' = Some ch" .
        then have "j \<le> length (table c)"
          using Cons.prems(4) by simp
        with k1 have "map MAC (take j (table c1)) = map MAC (take j (table c))"
          by (rule onlineKept_MAC_take)
        then have "map MAC (drop i (take j (table c1))) = map MAC (drop i (take j (table c)))"
          by (simp add: drop_map [symmetric])
        with ih e k1 show ?thesis
          by (auto simp: replayed_FromIngest replayedOn_FromIngest intro: onlineKept_trans)
      qed
    qed
  next
    case StepNotify
    show ?thesis
    proof (cases p)
      case Nil
      with Cons.prems StepNotify
      have "interleave c (Ranging i m) p sched = (c', Ranging j k, p', out)"
        by simp
      from Cons.IH [OF this Cons.prems(2,3,4)] show ?thesis .
    next
      case (Cons x q)
      obtain c2 g2 p2 out2 where l: "interleave c (Ranging i m) q sched = (c2, g2, p2, out2)"
        by (metis prod_cases4)
      from Cons.prems(1) StepNotify Cons l
      have e: "c' = c2" "g2 = Ranging j k" "p2 = p'" "out = FromIngest x # out2"
        by simp_all
      from l e have "interleave c (Ranging i m) q sched = (c', Ranging j k, p', out2)"
        by simp
      from Cons.IH [OF this Cons.prems(2,3,4)] e show ?thesis
        by simp
    qed
  next
    case StepWake
    with Cons.prems have "interleave c (Ranging i m) p sched = (c', Ranging j k, p', out)"
      by (simp add: AddNotificationChannel_wake_def)
    from Cons.IH [OF this Cons.prems(2,3,4)] show ?thesis .
  next
    case StepSend
    show ?thesis
    proof (cases "i < m")
      case False
      with Cons.prems StepSend
      have "interleave c (Ranging i m) p sched = (c', Ranging j k, p', out)"
        by (simp add: AddNotificationChannel_send_def split: prod.splits)
      from Cons.IH [OF this Cons.prems(2,3,4)] show ?thesis .
    next
      case True
      obtain c2 g2 p2 out2 where
        l: "interleave c (Ranging (Suc i) m) p sched = (c2, g2, p2, out2)"
        by (metis prod_cases4)
      from Cons.prems(1,2) StepSend True l
      have e: "c' = c2" "g2 = Ranging j k" "p2 = p'" "out = FromReplay ch (table c ! i) # out2"
        by (simp_all add: AddNotificationChannel_send_def)
      from l e have l': "interleave c (Ranging (Suc i) m) p sched = (c', Ranging j k, p', out2)"
        by simp
      from True have s: "Suc i \<le> m" by simp
      from Cons.IH [OF l' Cons.prems(2) s Cons.prems(4)]
      have ih: "k = m \<and> Suc i \<le> j \<and> j \<le> m \<and>
        map MAC (replayed out2) = map MAC (drop (Suc i) (take j (table c))) \<and>
        set (replayedOn out2) \<subseteq> {ch} \<and> onlineKept (table c) (table c') \<and>
        notification c' = Some ch" .
      then have "i < length (take j (table c))"
        using Cons.prems(4) by simp
      then have "drop i (take j (table c)) = table c ! i # drop (Suc i) (take j (table c))"
        using Cons_nth_drop_Suc [of i "take j (table c)"] ih by simp
      with ih e show ?thesis
        by simp
    qed
  qed
qed

text \<open>
  A schedule up to the end of the sleep and after it: the goroutine sends nothing while
  it sleeps, and takes the table as the frames processed until then leave it.
\<close>

lemma interleave_sleeping:
  "interleave c Sleeping p (pre @ StepWake # post) = (c', Ranging j n, p', out) \<Longrightarrow>
   StepWake \<notin> set pre \<Longrightarrow>
   \<exists>c0 p0 out0 rest.
     interleave c Sleeping p pre = (c0, Sleeping, p0, out0) \<and>
     interleave c0 (Ranging 0 (length (table c0))) p0 post = (c', Ranging j n, p', rest) \<and>
     out = out0 @ rest \<and> replayed out0 = [] \<and> replayedOn out0 = [] \<and>
     onlineKept (table c) (table c0) \<and> notification c0 = notification c"
proof (induction pre arbitrary: c p out)
  case Nil
  then show ?case
    by (simp add: AddNotificationChannel_wake_def onlineKept_refl)
next
  case (Cons s pre)
  from Cons.prems(2) have nw: "StepWake \<notin> set pre" and s: "s \<noteq> StepWake"
    by auto
  show ?case
  proof (cases s)
    case (StepFrame now packet)
    show ?thesis
    proof (cases "p \<noteq> []")
      case True
      with Cons.prems(1) StepFrame
      have "interleave c Sleeping p (pre @ StepWake # post) = (c', Ranging j n, p', out)"
        by simp
      from Cons.IH [OF this nw] True StepFrame show ?thesis
        by simp
    next
      case False
      show ?thesis
      proof (cases "ListenAndServe_frame c now packet")
        case (Inl flt)
        with Cons.prems(1) StepFrame False show ?thesis by simp
      next
        case (Inr q)
        obtain c1 o1 where q: "q = (c1, o1)" by (metis surj_pair)
        obtain c2 g2 p2 out2 where
          l: "interleave c1 Sleeping (filter isNotification o1) (pre @ StepWake # post) =
                (c2, g2, p2, out2)"
          by (metis prod_cases4)
        from Cons.prems(1) StepFrame False Inr q l
        have e: "c' = c2" "g2 = Ranging j n" "p2 = p'"
          "out = map FromIngest (filter (\<lambda>x. \<not> isNotification x) o1) @ out2"
          by simp_all
        from Inr q ListenAndServe_frame_keeps
        have k1: "onlineKept (table c) (table c1)" and n1: "notification c1 = notification c"
          by blast+
        from l e have "interleave c1 Sleeping (filter isNotification o1) (pre @ StepWake # post) =
                (c', Ranging j n, p', out2)"
          by simp
        from Cons.IH [OF this nw] obtain c0 p0 out0 rest where ih:
          "interleave c1 Sleeping (filter isNotification o1) pre = (c0, Sleeping, p0, out0)"
          "interleave c0 (Ranging 0 (length (table c0))) p0 post = (c', Ranging j n, p', rest)"
          "out2 = out0 @ rest" "replayed out0 = []" "replayedOn out0 = []"
          "onlineKept (table c1) (table c0)" "notification c0 = notification c1"
          by blast
        let ?o = "map FromIngest (filter (\<lambda>x. \<not> isNotification x) o1) @ out0"
        have "interleave c Sleeping p (s # pre) = (c0, Sleeping, p0, ?o)"
          using StepFrame False Inr q ih(1) by simp
        moreover have "out = ?o @ rest"
          using e ih(3) by simp
        moreover have "replayed ?o = []" "replayedOn ?o = []"
          using ih(4,5) by (simp_all add: replayed_FromIngest replayedOn_FromIngest)
        moreover have "onlineKept (table c) (table c0)"
          using k1 ih(6) by (rule onlineKept_trans)
        moreover have "notification c0 = notification c"
          using ih(7) n1 by simp
        ultimately show ?thesis
          using ih(2) by blast
      qed
    qed
  next
    case StepNotify
    show ?thesis
    proof (cases p)
      case Nil
      with Cons.prems(1) StepNotify
      have "interleave c Sleeping p (pre @ StepWake # post) = (c', Ranging j n, p', out)"
        by simp
      from Cons.IH [OF this nw] Nil StepNotify show ?thesis
        by simp
    next
      case (Cons x q)
      obtain c2 g2 p2 out2 where
        l: "interleave c Sleeping q (pre @ StepWake # post) = (c2, g2, p2, out2)"
        by (metis prod_cases4)
      from Cons.prems(1) StepNotify Cons l
      have e: "c' = c2" "g2 = Ranging j n" "p2 = p'" "out = FromIngest x # out2"
        by simp_all
      from l e have "interleave c Sleeping q (pre @ StepWake # post) = (c', Ranging j n, p', out2)"
        by simp
      from Cons.IH [OF this nw] obtain c0 p0 out0 rest where ih:
        "interleave c Sleeping q pre = (c0, Sleeping, p0, out0)"
        "interleave c0 (Ranging 0 (length (table c0))) p0 post = (c', Ranging j n, p', rest)"
        "out2 = out0 @ rest" "replayed out0 = []" "replayedOn out0 = []"
        "onlineKept (table c) (table c0)" "notification c0 = notification c"
        by blast
      have "interleave c Sleeping p (s # pre) = (c0, Sleeping, p0, FromIngest x # out0)"
        using StepNotify Cons ih(1) by simp
      moreover have "out = (FromIngest x # out0) @ rest"
        using e ih(3) by simp
      moreover have "replayed (FromIngest x # out0) = []" "replayedOn (FromIngest x # out0) = []"
        using ih(4,5) by simp_all
      ultimately show ?thesis
        using ih(2,6,7) by blast
    qed
  next
    case StepWake
    with s show ?thesis by simp
  next
    case StepSend
    with Cons.prems(1)
    have "interleave c Sleeping p (pre @ StepWake # post) = (c', Ranging j n, p', out)"
      by (simp add: AddNotificationChannel_send_def)
    from Cons.IH [OF this nw] StepSend show ?thesis
      by (simp add: AddNotificationChannel_send_def)
  qed
qed

lemma replayed_append: "replayed (xs @ ys) = replayed xs @ replayed ys"
  by (induction xs rule: replayed.induct) simp_all

lemma replayedOn_append: "replayedOn (xs @ ys) = replayedOn xs @ replayedOn ys"
  by (induction xs rule: replayedOn.induct) simp_all

text \<open>
  C4, as the code has it. A channel is registered on a table of N Entries; the sleep
  of the goroutine ends after the part \<open>pre\<close> of a schedule; the part \<open>post\<close> follows,
  with frames, sends of the ingest loop and sends of the goroutine in any order. At
  any moment of \<open>post\<close>, with the goroutine before turn \<open>j\<close> of \<open>n\<close>:
  \<^item> \<open>n\<close> is the length of the table when the sleep ended, which is N or more: the N
    Entries in their places (the same MACs), then the Entries made during the sleep;
  \<^item> the goroutine has sent exactly \<open>j\<close> copies, all on the registered channel, and
    they are copies of the first \<open>j\<close> Entries of that table, in the order of the table
    (the same MACs); when it has ended, \<open>j = n\<close>, that is one copy for each Entry;
  \<^item> as long as it has not ended, \<open>j < n\<close>, it is not blocked: its next send can be
    made, and is a copy of the Entry \<open>j\<close> as it is then.

  Nothing is said of where the sends of the ingest loop fall among these.
\<close>

theorem AddNotificationChannel_replay:
  assumes "interleave (AddNotificationChannel c (Some ch)) Sleeping []
             (pre @ StepWake # post) = (c', Ranging j n, p', out)"
    and "StepWake \<notin> set pre"
  shows "\<exists>c0 p0 out0.
           interleave (AddNotificationChannel c (Some ch)) Sleeping [] pre =
             (c0, Sleeping, p0, out0) \<and>
           n = length (table c0) \<and>
           length (table c) \<le> n \<and>
           map MAC (take (length (table c)) (table c0)) = map MAC (table c) \<and>
           j \<le> n \<and>
           length (replayed out) = j \<and>
           map MAC (replayed out) = map MAC (take j (table c0)) \<and>
           set (replayedOn out) \<subseteq> {ch} \<and>
           (j < n \<longrightarrow>
              AddNotificationChannel_send c' (Ranging j n) =
                (Ranging (Suc j) n, [FromReplay ch (table c' ! j)]))"
proof -
  let ?c1 = "AddNotificationChannel c (Some ch)"
  from interleave_sleeping [OF assms] obtain c0 p0 out0 rest where d:
    "interleave ?c1 Sleeping [] pre = (c0, Sleeping, p0, out0)"
    "interleave c0 (Ranging 0 (length (table c0))) p0 post = (c', Ranging j n, p', rest)"
    "out = out0 @ rest" "replayed out0 = []" "replayedOn out0 = []"
    "onlineKept (table ?c1) (table c0)" "notification c0 = notification ?c1"
    by blast
  have t: "table ?c1 = table c" and nt: "notification c0 = Some ch"
    using d(7) by (simp_all add: AddNotificationChannel_def)
  from interleave_ranging [OF d(2) nt]
  have r: "n = length (table c0)" "j \<le> length (table c0)"
    "map MAC (replayed rest) = map MAC (take j (table c0))"
    "set (replayedOn rest) \<subseteq> {ch}" "notification c' = Some ch"
    by simp_all
  have nx: "j < n \<longrightarrow>
              AddNotificationChannel_send c' (Ranging j n) =
                (Ranging (Suc j) n, [FromReplay ch (table c' ! j)])"
    using r(5) by (simp add: AddNotificationChannel_send_def)
  have o: "replayed out = replayed rest" "replayedOn out = replayedOn rest"
    using d(3,4,5) by (simp_all add: replayed_append replayedOn_append)
  from r(3) have len: "length (replayed rest) = j"
    using r(2) by (metis length_map length_take min.absorb2)
  have k: "onlineKept (table c) (table c0)"
    using d(6) t by simp
  have m: "map MAC (take (length (table c)) (table c0)) = map MAC (table c)"
    using onlineKept_MAC_take [OF k, of "length (table c)"] by simp
  from d(1) r(1,2,3,4) len k m o nx show ?thesis
    by (auto simp: onlineKept_def)
qed

text \<open>
  The engine that knows the device at 192.168.0.5 gets channel 7. The request of the
  new device at 192.168.0.33 is processed while the goroutine sleeps, and the ingest
  loop is at its send when the sleep ends. The goroutine sends its first copy, the
  ingest loop makes its send, the device at 192.168.0.5 replies at clock 11, and the
  goroutine sends its second copy.
\<close>

lemma exSmall_registered_frame:
  "ListenAndServe_frame (AddNotificationChannel exSmall (Some 7)) 9 exRequestNew =
     Inr (exSmall\<lparr>table := [exNormal, exNew], notification := Some 7\<rparr>,
          [InfoOnline exNew, Notification 7 exNew])"
proof -
  let ?c = "AddNotificationChannel exSmall (Some 7)"
  have c: "table ?c = [exNormal]" "notification ?c = Some 7"
    by (simp_all add: AddNotificationChannel_def exSmall_def)
  have a: "Operation exRequestNew = OperationRequest"
    "\<not> IsLinkLocalUnicast (SenderIP exRequestNew)" "\<not> IsLinkLocalUnicast (TargetIP exRequestNew)"
    "findMACLocked ?c (SenderHardwareAddr exRequestNew) = None"
    "\<not> IP_Equal (SenderIP exRequestNew) IPv4zero"
    "length (table ?c) < tableCapacity"
    by (simp_all add: exRequestNew_def example_not_link_local example_new_sender
        findMACLocked_def c exNormal_def bytes_Equal_def tableCapacity_def)
  have fv: "FindVirtualIP ?c (TargetIP exRequestNew) = None"
    by (simp add: FindVirtualIP_def c exNormal_def)
  have t: "?c\<lparr>table := [exNormal, exNew]\<rparr> =
           exSmall\<lparr>table := [exNormal, exNew], notification := Some 7\<rparr>"
    by (simp add: AddNotificationChannel_def exSmall_def)
  show ?thesis
    using new_sender_request [OF a, of 9]
    by (simp add: t example_new_sender fv c)
qed

lemma exSmall_reply_frame:
  "ListenAndServe_frame (exSmall\<lparr>table := [exNormal, exNew], notification := Some 7\<rparr>) 11 exReply5 =
     Inr (exSmall\<lparr>table := [exNormal\<lparr>LastUpdate := 11\<rparr>, exNew], notification := Some 7\<rparr>, [])"
proof -
  let ?c = "exSmall\<lparr>table := [exNormal, exNew], notification := Some 7\<rparr>"
  have f: "findMACLocked ?c (SenderHardwareAddr exReply5) = Some 0"
    by (simp add: findMACLocked_def exReply5_def exNormal_def bytes_Equal_def)
  have ll: "\<not> IsLinkLocalUnicast (SenderIP exReply5)" "\<not> IsLinkLocalUnicast (TargetIP exReply5)"
    by (simp_all add: exReply5_def example_not_link_local)
  have op: "Operation exReply5 \<noteq> OperationRequest" "Operation exReply5 = OperationReply"
    by (simp_all add: exReply5_def OperationReply_def OperationRequest_def)
  have u: "actionUpdateClient c (exNormal\<lparr>LastUpdate := 11\<rparr>) (SenderHardwareAddr exReply5)
             (SenderIP exReply5) = (exNormal\<lparr>LastUpdate := 11\<rparr>, 0)" for c
    by (simp add: actionUpdateClient_def exNormal_def exReply5_def IP_Equal_def)
  have s: "State exNormal = StateNormal"
    by (simp add: exNormal_def)
  have "ListenAndServe_sender ?c 11 exReply5 0 0 =
          (exSmall\<lparr>table := [exNormal\<lparr>LastUpdate := 11\<rparr>, exNew], notification := Some 7\<rparr>, [])"
    using op u s
    by (simp add: ListenAndServe_sender_def ListenAndServe_reply_def ListenAndServe_notify_def
        setEntry_def)
  then show ?thesis
    using f ll by (simp add: ListenAndServe_frame_def)
qed

theorem AddNotificationChannel_replay_witness:
  "interleave (AddNotificationChannel exSmall (Some 7)) Sleeping []
     ([StepFrame 9 exRequestNew] @ StepWake #
      [StepSend, StepNotify, StepFrame 11 exReply5, StepSend]) =
     (exSmall\<lparr>table := [exNormal\<lparr>LastUpdate := 11\<rparr>, exNew], notification := Some 7\<rparr>,
      Ranging 2 2, [],
      [FromIngest (InfoOnline exNew), FromReplay 7 exNormal,
       FromIngest (Notification 7 exNew), FromReplay 7 exNew]) \<and>
   StepWake \<notin> set [StepFrame 9 exRequestNew] \<and>
   (\<exists>c0 p0 out0.
      interleave (AddNotificationChannel exSmall (Some 7)) Sleeping []
        [StepFrame 9 exRequestNew] = (c0, Sleeping, p0, out0) \<and>
      2 = length (table c0) \<and>
      length (table exSmall) \<le> 2 \<and>
      map MAC (take (length (table exSmall)) (table c0)) = map MAC (table exSmall) \<and>
      length (replayed [FromIngest (InfoOnline exNew), FromReplay 7 exNormal,
                        FromIngest (Notification 7 exNew), FromReplay 7 exNew]) = 2 \<and>
      map MAC (replayed [FromIngest (InfoOnline exNew), FromReplay 7 exNormal,
                         FromIngest (Notification 7 exNew), FromReplay 7 exNew]) =
        map MAC (take 2 (table c0)) \<and>
      set (replayedOn [FromIngest (InfoOnline exNew), FromReplay 7 exNormal,
                       FromIngest (Notification 7 exNew), FromReplay 7 exNew]) \<subseteq> {7})"
proof -
  have r: "interleave (AddNotificationChannel exSmall (Some 7)) Sleeping []
     ([StepFrame 9 exRequestNew] @ StepWake #
      [StepSend, StepNotify, StepFrame 11 exReply5, StepSend]) =
     (exSmall\<lparr>table := [exNormal\<lparr>LastUpdate := 11\<rparr>, exNew], notification := Some 7\<rparr>,
      Ranging 2 2, [],
      [FromIngest (InfoOnline exNew), FromReplay 7 exNormal,
       FromIngest (Notification 7 exNew), FromReplay 7 exNew])"
    by (simp add: exSmall_registered_frame exSmall_reply_frame AddNotificationChannel_wake_def
        AddNotificationChannel_send_def)
  have w: "StepWake \<notin> set [StepFrame 9 exRequestNew]"
    by simp
  from AddNotificationChannel_replay [OF r w] r w show ?thesis
    by blast
qed

text \<open>
  The same engine and the same first frame; the ingest loop makes its send before the
  sleep ends, and the goroutine runs to its end. The table held one Entry when channel
  7 was registered, and three Entries arrive on the channel, the first of them the
  notification of the new device, not a copy of the Entry the table held.
\<close>

theorem AddNotificationChannel_live_first_counterexample:
  "table exSmall = [exNormal] \<and>
   interleave (AddNotificationChannel exSmall (Some 7)) Sleeping []
     [StepFrame 9 exRequestNew, StepNotify, StepWake, StepSend, StepSend] =
     (exSmall\<lparr>table := [exNormal, exNew], notification := Some 7\<rparr>, Ranging 2 2, [],
      [FromIngest (InfoOnline exNew), FromIngest (Notification 7 exNew),
       FromReplay 7 exNormal, FromReplay 7 exNew]) \<and>
   received [FromIngest (InfoOnline exNew), FromIngest (Notification 7 exNew),
             FromReplay 7 exNormal, FromReplay 7 exNew] = [exNew, exNormal, exNew] \<and>
   exNew \<noteq> exNormal"
  by (simp add: exSmall_registered_frame AddNotificationChannel_wake_def
      AddNotificationChannel_send_def)
    (simp add: exSmall_def exNew_def exNormal_def)

end
